theory Spec2Isabelle
  imports Main "HOL-Library.Char_ord" "HOL-Library.List_Lexorder"
begin

section \<open>Data model of \<^verbatim>\<open>buildbot_nix/gitea_projects.py\<close>\<close>

text \<open>
  A repository record is the JSON object of the Gitea listing, kept by the code as a
  \<^verbatim>\<open>dict\<close>. The keys the module reads are fields here. The key \<^verbatim>\<open>topics\<close> is not part of
  the base listing (\<open>None\<close>); \<^verbatim>\<open>refresh_projects\<close> splices it in (\<open>Some ts\<close>).
\<close>

record repo =
  full_name :: string
  name :: string
  owner_login :: string
  ssh_url :: string
  default_branch :: string
  permissions_admin :: bool
  topics :: "string list option"

text \<open>The dataclass \<^verbatim>\<open>GiteaConfig\<close>; \<^verbatim>\<open>Path\<close> values are strings.\<close>

record GiteaConfig =
  instance_url :: string
  oauth_id :: "string option"
  oauth_secret_name :: string
  token_secret_name :: string
  webhook_secret_name :: string
  project_cache_file :: string
  topic :: "string option"

definition GiteaConfig_new :: "string \<Rightarrow> string option \<Rightarrow> GiteaConfig" where
  "GiteaConfig_new iu oid =
     \<lparr>instance_url = iu, oauth_id = oid,
      oauth_secret_name = ''gitea-oauth-secret'',
      token_secret_name = ''gitea-token'',
      webhook_secret_name = ''gitea-webhook-secret'',
      project_cache_file = ''gitea-project-cache.json'',
      topic = Some ''build-with-buildbot''\<rparr>"

text \<open>The two dictionaries built by \<^verbatim>\<open>create_project_hook\<close>: \<^verbatim>\<open>config\<close> and \<^verbatim>\<open>data\<close>.\<close>

record hook_config =
  url :: string
  content_type :: string
  insecure_ssl :: string
  secret :: string

record hook =
  hook_name :: string
  active :: bool
  events :: "string list"
  config :: hook_config
  hook_type :: string

text \<open>
  Exceptions. What a request or a file operation raises is outside this module; the only
  distinction the module makes is \<^verbatim>\<open>except OSError\<close>, so a failure of the outside world
  is either in the \<^verbatim>\<open>OSError\<close> hierarchy or not.
\<close>

datatype io_failure = OSError_class | Other_class

datatype error =
    SecretMissing string
  | OSError
  | OtherError
  | KeyError string

fun raise_io :: "io_failure \<Rightarrow> error" where
  "raise_io OSError_class = OSError"
| "raise_io Other_class = OtherError"

fun is_OSError :: "error \<Rightarrow> bool" where
  "is_OSError OSError = True"
| "is_OSError _ = False"

text \<open>
  Everything the module does to the outside world, in the order it does it: HTTP requests,
  an attempt to replace a file, a line given to \<^verbatim>\<open>log.msg\<close>.
\<close>

datatype event =
    Get string
  | Post string hook
  | Write string
  | Msg string

fun is_post :: "event \<Rightarrow> bool" where
  "is_post (Post u d) = True"
| "is_post _ = False"

fun is_write :: "event \<Rightarrow> bool" where
  "is_write (Write p) = True"
| "is_write _ = False"

text \<open>
  The outside world as the module meets it. \<open>env\<close> holds what a run cannot change: the
  secret store, the outcome of the repository enumeration, of each topic request
  (including \<^verbatim>\<open>.json()["topics"]\<close>), whether listing or creating hooks of a repository
  fails, whether replacing a file fails. \<open>state\<close> holds what a run changes: the hooks
  registered at the remote, the files (a cache file is the JSON document it holds, an
  array of repository records, so \<^verbatim>\<open>json.dumps\<close> and \<^verbatim>\<open>json.loads\<close> are the identity), the
  trace of events, the \<^verbatim>\<open>SIGHUP\<close>s sent to the own process and the logs of the build step.
\<close>

record env =
  secret_store :: "string \<rightharpoonup> string"
  user_repos :: "io_failure + repo list"
  repo_topics :: "string \<Rightarrow> string \<Rightarrow> io_failure + string list"
  list_hooks_fails :: "string \<Rightarrow> io_failure option"
  create_hook_fails :: "string \<Rightarrow> io_failure option"
  write_fails :: "string \<Rightarrow> bool"

record state =
  remote_hooks :: "string \<Rightarrow> hook list"
  files :: "string \<rightharpoonup> repo list"
  trace :: "event list"
  sighups :: nat
  step_logs :: "(string \<times> string) list"

definition emit :: "event \<Rightarrow> state \<Rightarrow> state" where
  "emit ev s = s\<lparr>trace := trace s @ [ev]\<rparr>"

definition new_events :: "state \<Rightarrow> state \<Rightarrow> event list" where
  "new_events s s' = drop (length (trace s)) (trace s')"

section \<open>Imported helpers\<close>

text \<open>
  Modelled from the spec: \<^verbatim>\<open>read_secret_file\<close> of \<^verbatim>\<open>buildbot_nix/secrets.py\<close> is missing;
  the Secret Provider is \<^verbatim>\<open>read(secretName) -> string\<close>, which fails if the named secret
  is absent.
\<close>

definition read_secret_file :: "env \<Rightarrow> string \<Rightarrow> error + string" where
  "read_secret_file e n =
     (case secret_store e n of None \<Rightarrow> Inl (SecretMissing n) | Some v \<Rightarrow> Inr v)"

text \<open>\<^verbatim>\<open>GiteaConfig.token\<close> and \<^verbatim>\<open>GiteaConfig.oauth_secret\<close>.\<close>

definition token :: "env \<Rightarrow> GiteaConfig \<Rightarrow> error + string" where
  "token e cfg = read_secret_file e (token_secret_name cfg)"

definition oauth_secret :: "env \<Rightarrow> GiteaConfig \<Rightarrow> error + string" where
  "oauth_secret e cfg = read_secret_file e (oauth_secret_name cfg)"

text \<open>
  \<^verbatim>\<open>paginated_github_request\<close> and \<^verbatim>\<open>http_request\<close> of \<^verbatim>\<open>buildbot_nix/common.py\<close> are
  missing; their outcome is a parameter, read from \<open>env\<close> and, for the hooks of a
  repository, from the hooks the remote holds. A successful hook creation registers the
  posted hook at the remote, which lists it from then on. A paginated request is taken
  whole: it either raises or yields all its records, one \<open>Get\<close> event standing for its
  pages.
\<close>

definition paginated_github_request_repos ::
  "env \<Rightarrow> string \<Rightarrow> string \<Rightarrow> state \<Rightarrow> (error + repo list) \<times> state" where
  "paginated_github_request_repos e u tok s =
     (case user_repos e of
        Inl f \<Rightarrow> (Inl (raise_io f), emit (Get u) s)
      | Inr rs \<Rightarrow> (Inr rs, emit (Get u) s))"

definition paginated_github_request_hooks ::
  "env \<Rightarrow> string \<Rightarrow> string \<Rightarrow> string \<Rightarrow> state \<Rightarrow> (error + hook list) \<times> state" where
  "paginated_github_request_hooks e u repo_name tok s =
     (case list_hooks_fails e repo_name of
        Some f \<Rightarrow> (Inl (raise_io f), emit (Get u) s)
      | None \<Rightarrow> (Inr (remote_hooks s repo_name), emit (Get u) s))"

definition http_request_topics ::
  "env \<Rightarrow> string \<Rightarrow> string \<Rightarrow> string \<Rightarrow> state \<Rightarrow> (error + string list) \<times> state" where
  "http_request_topics e u owner nm s =
     (case repo_topics e owner nm of
        Inl f \<Rightarrow> (Inl (raise_io f), emit (Get u) s)
      | Inr ts \<Rightarrow> (Inr ts, emit (Get u) s))"

definition http_request_post ::
  "env \<Rightarrow> string \<Rightarrow> string \<Rightarrow> hook \<Rightarrow> state \<Rightarrow> (error + unit) \<times> state" where
  "http_request_post e u repo_name d s =
     (case create_hook_fails e repo_name of
        Some f \<Rightarrow> (Inl (raise_io f), emit (Post u d) s)
      | None \<Rightarrow>
          (Inr (),
           emit (Post u d)
             (s\<lparr>remote_hooks := (remote_hooks s)(repo_name := remote_hooks s repo_name @ [d])\<rparr>)))"

text \<open>
  Modelled from the spec: \<^verbatim>\<open>atomic_write_file\<close> of \<^verbatim>\<open>buildbot_nix/common.py\<close> is missing;
  Project Catalog \<^verbatim>\<open>write\<close> replaces the file's prior contents atomically (temporary file
  in the same directory, flush, rename over the target), so a write that cannot complete
  leaves the previous snapshot intact.
\<close>

definition atomic_write_file ::
  "env \<Rightarrow> string \<Rightarrow> repo list \<Rightarrow> state \<Rightarrow> (error + unit) \<times> state" where
  "atomic_write_file e path doc s =
     (if write_fails e path then (Inl OSError, emit (Write path) s)
      else (Inr (), emit (Write path) (s\<lparr>files := (files s)(path \<mapsto> doc)\<rparr>)))"

section \<open>The module\<close>

subsection \<open>\<^verbatim>\<open>GiteaProject\<close>\<close>

datatype GiteaProject = GiteaProject (project_config: GiteaConfig) (data: repo)

text \<open>
  The property \<^verbatim>\<open>topics\<close> is \<^verbatim>\<open>self.data["topics"]\<close>: a \<^verbatim>\<open>KeyError\<close> on a record without
  the key.
\<close>

definition project_topics :: "GiteaProject \<Rightarrow> error + string list" where
  "project_topics p =
     (case topics (data p) of None \<Rightarrow> Inl (KeyError ''topics'') | Some ts \<Rightarrow> Inr ts)"

definition project_name :: "GiteaProject \<Rightarrow> string" where
  "project_name p = full_name (data p)"

definition belongs_to_org :: "GiteaProject \<Rightarrow> bool" where
  "belongs_to_org p = False"

subsection \<open>\<^verbatim>\<open>create_project_hook\<close>\<close>

text \<open>The loop \<^verbatim>\<open>for hook in hooks\<close>: \<open>True\<close> when it returns early.\<close>

fun hook_exists :: "hook list \<Rightarrow> string \<Rightarrow> bool" where
  "hook_exists [] u = False"
| "hook_exists (h # hs) u = (if url (config h) = u then True else hook_exists hs u)"

definition create_project_hook ::
  "env \<Rightarrow> string \<Rightarrow> string \<Rightarrow> string \<Rightarrow> string \<Rightarrow> string \<Rightarrow> state \<Rightarrow> (error + unit) \<times> state" where
  "create_project_hook e iu repo_name tok webhook_url webhook_secret s =
     (case paginated_github_request_hooks e
             (iu @ ''/api/v1/repos/'' @ repo_name @ ''/hooks?limit=100'') repo_name tok s of
        (Inl err, s1) \<Rightarrow> (Inl err, s1)
      | (Inr hooks, s1) \<Rightarrow>
          (let cfg = \<lparr>url = webhook_url @ ''change_hook/gitea'',
                      content_type = ''json'',
                      insecure_ssl = ''0'',
                      secret = webhook_secret\<rparr>;
               d = \<lparr>hook_name = ''web'',
                    active = True,
                    events = [''push'', ''pull_request''],
                    config = cfg,
                    hook_type = ''gitea''\<rparr>
           in if hook_exists hooks (webhook_url @ ''change_hook/gitea'')
              then (Inr (), emit (Msg (''hook for '' @ repo_name @ '' already exists'')) s1)
              else http_request_post e (iu @ ''/api/v1/repos/'' @ repo_name @ ''/hooks'')
                     repo_name d s1))"

subsection \<open>\<^verbatim>\<open>refresh_projects\<close>\<close>

definition skip_msg :: "string \<Rightarrow> string" where
  "skip_msg nm =
     ''skipping '' @ nm @ '' because we do not have admin privileges, needed for hook management''"

text \<open>The body of the \<^verbatim>\<open>try\<close>: the token is read for the header, then the request is made.\<close>

definition fetch_topics ::
  "env \<Rightarrow> GiteaConfig \<Rightarrow> repo \<Rightarrow> state \<Rightarrow> (error + string list) \<times> state" where
  "fetch_topics e cfg r s =
     (case token e cfg of
        Inl err \<Rightarrow> (Inl err, s)
      | Inr tok \<Rightarrow>
          http_request_topics e
            (instance_url cfg @ ''/api/v1/repos/'' @ owner_login r @ ''/'' @ name r @ ''/topics'')
            (owner_login r) (name r) s)"

text \<open>The loop over the enumeration; \<open>repos\<close> is the list being appended to.\<close>

fun refresh_loop ::
  "env \<Rightarrow> GiteaConfig \<Rightarrow> repo list \<Rightarrow> repo list \<Rightarrow> state \<Rightarrow> (error + repo list) \<times> state" where
  "refresh_loop e cfg [] repos s = (Inr repos, s)"
| "refresh_loop e cfg (r # rest) repos s =
     (if \<not> permissions_admin r then
        refresh_loop e cfg rest repos (emit (Msg (skip_msg (full_name r))) s)
      else
        (case fetch_topics e cfg r s of
           (Inl err, s1) \<Rightarrow>
             if is_OSError err then refresh_loop e cfg rest repos s1 else (Inl err, s1)
         | (Inr ts, s1) \<Rightarrow>
             refresh_loop e cfg rest (repos @ [r\<lparr>topics := Some ts\<rparr>]) s1))"

definition refresh_projects ::
  "env \<Rightarrow> GiteaConfig \<Rightarrow> state \<Rightarrow> (error + repo list) \<times> state" where
  "refresh_projects e cfg s =
     (case token e cfg of
        Inl err \<Rightarrow> (Inl err, s)
      | Inr tok \<Rightarrow>
          (case paginated_github_request_repos e
                  (instance_url cfg @ ''/api/v1/user/repos?limit=100'') tok s of
             (Inl err, s1) \<Rightarrow> (Inl err, s1)
           | (Inr rs, s1) \<Rightarrow> refresh_loop e cfg rs [] s1))"

subsection \<open>\<^verbatim>\<open>ReloadGiteaProjects\<close>\<close>

record ReloadGiteaProjects =
  step_config :: GiteaConfig
  step_project_cache_file :: string
  webhook_url :: string
  webhook_secret :: string

text \<open>The loop \<^verbatim>\<open>for repo in repos\<close> of \<^verbatim>\<open>reload_projects\<close>.\<close>

fun hooks_loop ::
  "env \<Rightarrow> ReloadGiteaProjects \<Rightarrow> repo list \<Rightarrow> state \<Rightarrow> (error + unit) \<times> state" where
  "hooks_loop e st [] s = (Inr (), s)"
| "hooks_loop e st (r # rest) s =
     (case token e (step_config st) of
        Inl err \<Rightarrow> (Inl err, s)
      | Inr tok \<Rightarrow>
          (case create_project_hook e (instance_url (step_config st)) (full_name r) tok
                  (webhook_url st) (webhook_secret st) s of
             (Inl err, s1) \<Rightarrow> (Inl err, s1)
           | (Inr u, s1) \<Rightarrow> hooks_loop e st rest s1))"

definition reload_projects ::
  "env \<Rightarrow> ReloadGiteaProjects \<Rightarrow> state \<Rightarrow> (error + unit) \<times> state" where
  "reload_projects e st s =
     (case refresh_projects e (step_config st) s of
        (Inl err, s1) \<Rightarrow> (Inl err, s1)
      | (Inr repos, s1) \<Rightarrow>
          (case hooks_loop e st repos s1 of
             (Inl err, s2) \<Rightarrow> (Inl err, s2)
           | (Inr u, s2) \<Rightarrow> atomic_write_file e (step_project_cache_file st) repos s2))"

text \<open>
  \<^verbatim>\<open>run\<close>: the deferred of \<^verbatim>\<open>reload_projects\<close> is mapped to \<^verbatim>\<open>SUCCESS\<close>, or by \<^verbatim>\<open>error_cb\<close>
  to \<^verbatim>\<open>FAILURE\<close> with the traceback appended to the empty \<^verbatim>\<open>error_msg\<close>.
  \<^verbatim>\<open>Failure.getTraceback\<close> is Twisted's and a parameter here.
\<close>

datatype result = SUCCESS | FAILURE

definition run ::
  "env \<Rightarrow> (error \<Rightarrow> string) \<Rightarrow> ReloadGiteaProjects \<Rightarrow> state \<Rightarrow> result \<times> state" where
  "run e getTraceback st s =
     (case reload_projects e st s of
        (Inr u, s1) \<Rightarrow> (SUCCESS, s1\<lparr>sighups := sighups s1 + 1\<rparr>)
      | (Inl err, s1) \<Rightarrow>
          (FAILURE,
           s1\<lparr>step_logs := step_logs s1 @
                 [(''log'', ''Failed to reload project list: '' @ ([] @ getTraceback err))]\<rparr>))"

subsection \<open>\<^verbatim>\<open>GiteaBackend\<close>\<close>

record GiteaBackend =
  backend_config :: GiteaConfig
  backend_webhook_secret :: string

definition GiteaBackend_init :: "env \<Rightarrow> GiteaConfig \<Rightarrow> error + GiteaBackend" where
  "GiteaBackend_init e cfg =
     (case read_secret_file e (webhook_secret_name cfg) of
        Inl err \<Rightarrow> Inl err
      | Inr ws \<Rightarrow> Inr \<lparr>backend_config = cfg, backend_webhook_secret = ws\<rparr>)"

text \<open>The step that \<^verbatim>\<open>create_reload_builder\<close> puts into the builder's factory.\<close>

definition create_reload_builder :: "GiteaBackend \<Rightarrow> string \<Rightarrow> ReloadGiteaProjects" where
  "create_reload_builder b base_url =
     \<lparr>step_config = backend_config b,
      step_project_cache_file = project_cache_file (backend_config b),
      webhook_url = base_url,
      webhook_secret = backend_webhook_secret b\<rparr>"

text \<open>
  \<^verbatim>\<open>load_projects\<close>. The filter's predicate is
  \<^verbatim>\<open>self.config.topic is not None and self.config.topic in project.topics\<close>: with no topic
  configured it is false without looking at the project.
\<close>

fun filter_projects :: "string option \<Rightarrow> GiteaProject list \<Rightarrow> error + GiteaProject list" where
  "filter_projects t [] = Inr []"
| "filter_projects None (p # ps) = filter_projects None ps"
| "filter_projects (Some tp) (p # ps) =
     (case project_topics p of
        Inl err \<Rightarrow> Inl err
      | Inr ts \<Rightarrow>
          (case filter_projects (Some tp) ps of
             Inl err \<Rightarrow> Inl err
           | Inr res \<Rightarrow> Inr (if tp \<in> set ts then p # res else res)))"

definition load_projects :: "GiteaBackend \<Rightarrow> state \<Rightarrow> error + GiteaProject list" where
  "load_projects b s =
     (case files s (project_cache_file (backend_config b)) of
        None \<Rightarrow> Inr []
      | Some doc \<Rightarrow>
          (let repos = sort_key full_name doc
           in filter_projects (topic (backend_config b))
                (map (GiteaProject (backend_config b)) repos)))"

definition are_projects_cached :: "GiteaBackend \<Rightarrow> state \<Rightarrow> bool" where
  "are_projects_cached b s = (files s (project_cache_file (backend_config b)) \<noteq> None)"

text \<open>
  The admin-eligible repositories of an enumeration whose topic request succeeded, each
  carrying its topics, in the order of the enumeration: what the Remote Lister is to
  return.
\<close>

definition survivors :: "env \<Rightarrow> repo list \<Rightarrow> repo list" where
  "survivors e rs =
     List.map_filter
       (\<lambda>r. if permissions_admin r
            then (case repo_topics e (owner_login r) (name r) of
                    Inl f \<Rightarrow> None
                  | Inr ts \<Rightarrow> Some (r\<lparr>topics := Some ts\<rparr>))
            else None) rs"

text \<open>The payload \<^verbatim>\<open>data\<close> of \<^verbatim>\<open>create_project_hook\<close>, written out.\<close>

definition desired_hook :: "string \<Rightarrow> string \<Rightarrow> hook" where
  "desired_hook wu ws =
     \<lparr>hook_name = ''web'', active = True, events = [''push'', ''pull_request''],
      config = \<lparr>url = wu @ ''change_hook/gitea'', content_type = ''json'',
                insecure_ssl = ''0'', secret = ws\<rparr>,
      hook_type = ''gitea''\<rparr>"

text \<open>A record whose \<^verbatim>\<open>topics\<close> contain the topic \<open>t\<close>.\<close>

definition has_topic :: "string \<Rightarrow> repo \<Rightarrow> bool" where
  "has_topic t r = (case topics r of None \<Rightarrow> False | Some ts \<Rightarrow> t \<in> set ts)"

section \<open>Example worlds\<close>

text \<open>
  A listing record as the remote returns it (no \<^verbatim>\<open>topics\<close> key), a configuration with the
  defaults of the dataclass, a secret store holding both secrets, and a remote on which
  every request succeeds and every repository carries the topic \<^verbatim>\<open>build-with-buildbot\<close>.
\<close>

definition listed :: "string \<Rightarrow> string \<Rightarrow> bool \<Rightarrow> repo" where
  "listed owner nm adm =
     \<lparr>full_name = owner @ ''/'' @ nm,
      name = nm,
      owner_login = owner,
      ssh_url = ''git@gitea.example.com:'' @ owner @ ''/'' @ nm @ ''.git'',
      default_branch = ''main'',
      permissions_admin = adm,
      topics = None\<rparr>"

definition tagged :: "string \<Rightarrow> string \<Rightarrow> string list \<Rightarrow> repo" where
  "tagged owner nm ts = (listed owner nm True)\<lparr>topics := Some ts\<rparr>"

definition cfg0 :: GiteaConfig where
  "cfg0 = GiteaConfig_new ''https://gitea.example.com'' None"

definition cfg_no_topic :: GiteaConfig where
  "cfg_no_topic = cfg0\<lparr>topic := None\<rparr>"

definition secrets0 :: "string \<rightharpoonup> string" where
  "secrets0 = [''gitea-token'' \<mapsto> ''t0k3n'', ''gitea-webhook-secret'' \<mapsto> ''s3cr3t'']"

definition secrets_no_token :: "string \<rightharpoonup> string" where
  "secrets_no_token = [''gitea-webhook-secret'' \<mapsto> ''s3cr3t'']"

definition env0 :: "repo list \<Rightarrow> env" where
  "env0 rs =
     \<lparr>secret_store = secrets0,
      user_repos = Inr rs,
      repo_topics = (\<lambda>owner nm. Inr [''build-with-buildbot'']),
      list_hooks_fails = (\<lambda>nm. None),
      create_hook_fails = (\<lambda>nm. None),
      write_fails = (\<lambda>path. False)\<rparr>"

text \<open>The same remote, refusing the hook creation for one repository.\<close>

definition env_post_fails :: "string \<Rightarrow> repo list \<Rightarrow> env" where
  "env_post_fails nm rs =
     (env0 rs)\<lparr>create_hook_fails := (\<lambda>n. if n = nm then Some Other_class else None)\<rparr>"

text \<open>The same remote, the topic request of one repository failing.\<close>

definition env_topics_fail :: "io_failure \<Rightarrow> string \<Rightarrow> string \<Rightarrow> repo list \<Rightarrow> env" where
  "env_topics_fail f owner nm rs =
     (env0 rs)\<lparr>repo_topics :=
        (\<lambda>ow n. if ow = owner \<and> n = nm then Inl f else Inr [''build-with-buildbot''])\<rparr>"

text \<open>The same remote, with a secret store that lacks the API token.\<close>

definition env_no_token :: "repo list \<Rightarrow> env" where
  "env_no_token rs = (env0 rs)\<lparr>secret_store := secrets_no_token\<rparr>"

text \<open>Five admin-eligible repositories of one owner.\<close>

definition five_repos :: "repo list" where
  "five_repos =
     [listed ''org'' ''one'' True, listed ''org'' ''two'' True, listed ''org'' ''three'' True,
      listed ''org'' ''four'' True, listed ''org'' ''five'' True]"

definition state0 :: state where
  "state0 =
     \<lparr>remote_hooks = (\<lambda>nm. []), files = Map.empty, trace = [], sighups = 0, step_logs = []\<rparr>"

definition state_cached :: "repo list \<Rightarrow> state" where
  "state_cached doc = state0\<lparr>files := [''gitea-project-cache.json'' \<mapsto> doc]\<rparr>"

definition backend0 :: GiteaBackend where
  "backend0 = \<lparr>backend_config = cfg0, backend_webhook_secret = ''s3cr3t''\<rparr>"

definition backend_no_topic :: GiteaBackend where
  "backend_no_topic = \<lparr>backend_config = cfg_no_topic, backend_webhook_secret = ''s3cr3t''\<rparr>"

definition step0 :: ReloadGiteaProjects where
  "step0 = create_reload_builder backend0 ''https://buildbot.example.com/''"

definition show_error :: "error \<Rightarrow> string" where
  "show_error err =
     (case err of
        SecretMissing n \<Rightarrow> ''SecretMissing: '' @ n
      | OSError \<Rightarrow> ''OSError''
      | OtherError \<Rightarrow> ''Exception''
      | KeyError k \<Rightarrow> ''KeyError: '' @ k)"

section \<open>Basic facts\<close>

subsection \<open>Events and requests\<close>

lemma emit_simps:
  "trace (emit ev s) = trace s @ [ev]"
  "files (emit ev s) = files s"
  "remote_hooks (emit ev s) = remote_hooks s"
  "sighups (emit ev s) = sighups s"
  "step_logs (emit ev s) = step_logs s"
  by (simp_all add: emit_def)

lemma new_events_append: "trace s' = trace s @ evs \<Longrightarrow> new_events s s' = evs"
  by (simp add: new_events_def)

lemma hook_exists_iff: "hook_exists hs u \<longleftrightarrow> (\<exists>h\<in>set hs. url (config h) = u)"
  by (induction hs) auto

subsection \<open>\<^verbatim>\<open>create_project_hook\<close>, case by case\<close>

lemma create_project_hook_cases:
  "create_project_hook e iu rn tok wu ws s =
     (case list_hooks_fails e rn of
        Some f \<Rightarrow> (Inl (raise_io f), emit (Get (iu @ ''/api/v1/repos/'' @ rn @ ''/hooks?limit=100'')) s)
      | None \<Rightarrow>
         if (\<exists>h\<in>set (remote_hooks s rn). url (config h) = wu @ ''change_hook/gitea'')
         then (Inr (), emit (Msg (''hook for '' @ rn @ '' already exists''))
                         (emit (Get (iu @ ''/api/v1/repos/'' @ rn @ ''/hooks?limit=100'')) s))
         else http_request_post e (iu @ ''/api/v1/repos/'' @ rn @ ''/hooks'') rn (desired_hook wu ws)
                (emit (Get (iu @ ''/api/v1/repos/'' @ rn @ ''/hooks?limit=100'')) s))"
  by (simp add: create_project_hook_def paginated_github_request_hooks_def hook_exists_iff
      desired_hook_def emit_simps Let_def split: option.splits)

lemma create_project_hook_frame:
  assumes "create_project_hook e iu rn tok wu ws s = (r, s')"
  shows "files s' = files s" and "sighups s' = sighups s" and "step_logs s' = step_logs s"
  using assms
  by (auto simp: create_project_hook_cases http_request_post_def emit_simps
      split: option.splits if_splits)

lemma create_project_hook_trace:
  assumes "create_project_hook e iu rn tok wu ws s = (r, s')"
  shows "\<exists>evs. trace s' = trace s @ evs \<and> filter is_write evs = [] \<and>
           (\<forall>u d. Post u d \<in> set evs \<longrightarrow> u = iu @ ''/api/v1/repos/'' @ rn @ ''/hooks'')"
  using assms
  by (auto simp: create_project_hook_cases http_request_post_def emit_simps
      split: option.splits if_splits)

subsection \<open>The loop of \<^verbatim>\<open>refresh_projects\<close>\<close>

lemma fetch_topics_cases:
  "fetch_topics e cfg r s =
     (case token e cfg of
        Inl err \<Rightarrow> (Inl err, s)
      | Inr tok \<Rightarrow>
         (case repo_topics e (owner_login r) (name r) of
            Inl f \<Rightarrow> Inl (raise_io f)
          | Inr ts \<Rightarrow> Inr ts,
          emit (Get (instance_url cfg @ ''/api/v1/repos/'' @ owner_login r @ ''/'' @ name r @ ''/topics'')) s))"
  by (simp add: fetch_topics_def http_request_topics_def split: sum.splits)

lemma fetch_topics_frame:
  assumes "fetch_topics e cfg r s = (res, s')"
  shows "files s' = files s" and "sighups s' = sighups s" and "step_logs s' = step_logs s"
    and "remote_hooks s' = remote_hooks s"
  using assms by (auto simp: fetch_topics_cases emit_simps split: sum.splits)

lemma fetch_topics_trace:
  assumes "fetch_topics e cfg r s = (res, s')"
  shows "\<exists>evs. trace s' = trace s @ evs \<and> filter is_write evs = [] \<and> filter is_post evs = []"
  using assms by (auto simp: fetch_topics_cases emit_simps split: sum.splits)

text \<open>One round of the loop over the enumeration, as a step to the rest of the loop.\<close>

lemma refresh_loop_step:
  assumes "refresh_loop e cfg (r # rs) acc s = (res, s')"
  shows "(\<exists>acc1 s1 evs. refresh_loop e cfg rs acc1 s1 = (res, s') \<and>
            trace s1 = trace s @ evs \<and> filter is_write evs = [] \<and> filter is_post evs = [] \<and>
            files s1 = files s \<and> sighups s1 = sighups s \<and> step_logs s1 = step_logs s \<and>
            remote_hooks s1 = remote_hooks s) \<or>
         (\<exists>err evs. res = Inl err \<and>
            trace s' = trace s @ evs \<and> filter is_write evs = [] \<and> filter is_post evs = [] \<and>
            files s' = files s \<and> sighups s' = sighups s \<and> step_logs s' = step_logs s \<and>
            remote_hooks s' = remote_hooks s)"
proof (cases "permissions_admin r")
  case False
  with assms have "refresh_loop e cfg rs acc (emit (Msg (skip_msg (full_name r))) s) = (res, s')"
    by simp
  moreover have "trace (emit (Msg (skip_msg (full_name r))) s) = trace s @ [Msg (skip_msg (full_name r))]"
    "filter is_write [Msg (skip_msg (full_name r))] = []"
    "filter is_post [Msg (skip_msg (full_name r))] = []"
    "files (emit (Msg (skip_msg (full_name r))) s) = files s"
    "sighups (emit (Msg (skip_msg (full_name r))) s) = sighups s"
    "step_logs (emit (Msg (skip_msg (full_name r))) s) = step_logs s"
    "remote_hooks (emit (Msg (skip_msg (full_name r))) s) = remote_hooks s"
    by (simp_all add: emit_simps)
  ultimately show ?thesis by blast
next
  case True
  obtain fr s1 where f: "fetch_topics e cfg r s = (fr, s1)" by (cases "fetch_topics e cfg r s")
  from fetch_topics_trace[OF f] obtain evs1 where
    e1: "trace s1 = trace s @ evs1" "filter is_write evs1 = []" "filter is_post evs1 = []"
    by blast
  note fr = fetch_topics_frame[OF f]
  show ?thesis
  proof (cases fr)
    case (Inl err)
    show ?thesis
    proof (cases "is_OSError err")
      case True
      with assms \<open>permissions_admin r\<close> f Inl
      have "refresh_loop e cfg rs acc s1 = (res, s')" by simp
      with e1 fr show ?thesis by blast
    next
      case False
      with assms \<open>permissions_admin r\<close> f Inl have "s' = s1" "res = Inl err" by simp_all
      with e1 fr show ?thesis by blast
    qed
  next
    case (Inr ts)
    with assms True f
    have "refresh_loop e cfg rs (acc @ [r\<lparr>topics := Some ts\<rparr>]) s1 = (res, s')" by simp
    with e1 fr show ?thesis by blast
  qed
qed

lemma refresh_loop_frame:
  "refresh_loop e cfg rs acc s = (res, s') \<Longrightarrow>
     files s' = files s \<and> sighups s' = sighups s \<and> step_logs s' = step_logs s \<and>
     remote_hooks s' = remote_hooks s"
proof (induction rs arbitrary: acc s)
  case Nil
  then show ?case by simp
next
  case (Cons r rs)
  from refresh_loop_step[OF Cons.prems] show ?case
  proof (elim disjE exE conjE)
    fix acc1 s1 evs
    assume "refresh_loop e cfg rs acc1 s1 = (res, s')"
      and "files s1 = files s" "sighups s1 = sighups s" "step_logs s1 = step_logs s"
      "remote_hooks s1 = remote_hooks s"
    with Cons.IH[of acc1 s1] show ?thesis by simp
  next
    fix err evs
    assume "files s' = files s" "sighups s' = sighups s" "step_logs s' = step_logs s"
      "remote_hooks s' = remote_hooks s"
    then show ?thesis by simp
  qed
qed

lemma refresh_loop_trace:
  "refresh_loop e cfg rs acc s = (res, s') \<Longrightarrow>
     \<exists>evs. trace s' = trace s @ evs \<and> filter is_write evs = [] \<and> filter is_post evs = []"
proof (induction rs arbitrary: acc s)
  case Nil
  then show ?case by simp
next
  case (Cons r rs)
  from refresh_loop_step[OF Cons.prems] show ?case
  proof (elim disjE exE conjE)
    fix acc1 s1 evs
    assume run: "refresh_loop e cfg rs acc1 s1 = (res, s')"
      and e1: "trace s1 = trace s @ evs" "filter is_write evs = []" "filter is_post evs = []"
    from Cons.IH[OF run] obtain evs2 where
      e2: "trace s' = trace s1 @ evs2" "filter is_write evs2 = []" "filter is_post evs2 = []"
      by blast
    have "trace s' = trace s @ (evs @ evs2)" using e1(1) e2(1) by simp
    moreover have "filter is_write (evs @ evs2) = []" using e1(2) e2(2) by simp
    moreover have "filter is_post (evs @ evs2) = []" using e1(3) e2(3) by simp
    ultimately show ?thesis by blast
  next
    fix err evs
    assume "trace s' = trace s @ evs" "filter is_write evs = []" "filter is_post evs = []"
    then show ?thesis by blast
  qed
qed

lemma refresh_loop_trace_mono:
  assumes "refresh_loop e cfg rs acc s = (res, s')" and "x \<in> set (trace s)"
  shows "x \<in> set (trace s')"
  using refresh_loop_trace[OF assms(1)] assms(2) by auto

text \<open>What a completed loop returns, and the diagnostics it has emitted.\<close>

lemma refresh_loop_output:
  "refresh_loop e cfg rs acc s = (Inr out, s') \<Longrightarrow>
     (\<exists>new. out = acc @ new \<and>
        (\<forall>r\<in>set new. permissions_admin r \<and> topics r \<noteq> None \<and>
           (\<exists>r0\<in>set rs. permissions_admin r0 \<and> r = r0\<lparr>topics := topics r\<rparr>))) \<and>
     (\<forall>r0\<in>set rs. \<not> permissions_admin r0 \<longrightarrow> Msg (skip_msg (full_name r0)) \<in> set (trace s'))"
proof (induction rs arbitrary: acc s)
  case Nil
  then show ?case by simp
next
  case (Cons r rs)
  show ?case
  proof (cases "permissions_admin r")
    case False
    with Cons.prems
    have run: "refresh_loop e cfg rs acc (emit (Msg (skip_msg (full_name r))) s) = (Inr out, s')"
      by simp
    have here: "Msg (skip_msg (full_name r)) \<in> set (trace s')"
      by (rule refresh_loop_trace_mono[OF run]) (simp add: emit_simps)
    from Cons.IH[OF run] obtain new where
        n: "out = acc @ new"
           "\<forall>x\<in>set new. permissions_admin x \<and> topics x \<noteq> None \<and>
              (\<exists>r0\<in>set rs. permissions_admin r0 \<and> x = r0\<lparr>topics := topics x\<rparr>)"
        and m: "\<forall>r0\<in>set rs. \<not> permissions_admin r0 \<longrightarrow> Msg (skip_msg (full_name r0)) \<in> set (trace s')"
      by blast
    have "\<forall>x\<in>set new. permissions_admin x \<and> topics x \<noteq> None \<and>
              (\<exists>r0\<in>set (r # rs). permissions_admin r0 \<and> x = r0\<lparr>topics := topics x\<rparr>)"
      using n(2) by simp
    moreover have "\<forall>r0\<in>set (r # rs). \<not> permissions_admin r0 \<longrightarrow> Msg (skip_msg (full_name r0)) \<in> set (trace s')"
      using m here by simp
    ultimately show ?thesis using n(1) by blast
  next
    case True
    obtain fr s1 where f: "fetch_topics e cfg r s = (fr, s1)" by (cases "fetch_topics e cfg r s")
    show ?thesis
    proof (cases fr)
      case (Inl err)
      with Cons.prems True f have run: "refresh_loop e cfg rs acc s1 = (Inr out, s')"
        by (simp split: if_splits)
      from Cons.IH[OF run] obtain new where
        n: "out = acc @ new"
           "\<forall>x\<in>set new. permissions_admin x \<and> topics x \<noteq> None \<and>
              (\<exists>r0\<in>set rs. permissions_admin r0 \<and> x = r0\<lparr>topics := topics x\<rparr>)"
        and m: "\<forall>r0\<in>set rs. \<not> permissions_admin r0 \<longrightarrow> Msg (skip_msg (full_name r0)) \<in> set (trace s')"
        by blast
      have "\<forall>x\<in>set new. permissions_admin x \<and> topics x \<noteq> None \<and>
              (\<exists>r0\<in>set (r # rs). permissions_admin r0 \<and> x = r0\<lparr>topics := topics x\<rparr>)"
        using n(2) by simp
      moreover have "\<forall>r0\<in>set (r # rs). \<not> permissions_admin r0 \<longrightarrow> Msg (skip_msg (full_name r0)) \<in> set (trace s')"
        using m True by simp
      ultimately show ?thesis using n(1) by blast
    next
      case (Inr ts)
      with Cons.prems True f
      have run: "refresh_loop e cfg rs (acc @ [r\<lparr>topics := Some ts\<rparr>]) s1 = (Inr out, s')"
        by simp
      from Cons.IH[OF run] obtain new where
        n: "out = (acc @ [r\<lparr>topics := Some ts\<rparr>]) @ new"
           "\<forall>x\<in>set new. permissions_admin x \<and> topics x \<noteq> None \<and>
              (\<exists>r0\<in>set rs. permissions_admin r0 \<and> x = r0\<lparr>topics := topics x\<rparr>)"
        and m: "\<forall>r0\<in>set rs. \<not> permissions_admin r0 \<longrightarrow> Msg (skip_msg (full_name r0)) \<in> set (trace s')"
        by blast
      have o: "out = acc @ (r\<lparr>topics := Some ts\<rparr> # new)" using n(1) by simp
      define P where "P x \<longleftrightarrow> permissions_admin x \<and> topics x \<noteq> None \<and>
              (\<exists>r0\<in>set (r # rs). permissions_admin r0 \<and> x = r0\<lparr>topics := topics x\<rparr>)" for x
      have "P (r\<lparr>topics := Some ts\<rparr>)"
        unfolding P_def using True by simp
      moreover have "\<forall>x\<in>set new. P x"
        unfolding P_def using n(2) by simp
      ultimately have "\<forall>x\<in>set (r\<lparr>topics := Some ts\<rparr> # new). P x"
        by simp
      then have "\<forall>x\<in>set (r\<lparr>topics := Some ts\<rparr> # new). permissions_admin x \<and> topics x \<noteq> None \<and>
              (\<exists>r0\<in>set (r # rs). permissions_admin r0 \<and> x = r0\<lparr>topics := topics x\<rparr>)"
        unfolding P_def .
      moreover have "\<forall>r0\<in>set (r # rs). \<not> permissions_admin r0 \<longrightarrow> Msg (skip_msg (full_name r0)) \<in> set (trace s')"
        using m True by simp
      ultimately show ?thesis using o by blast
    qed
  qed
qed

subsection \<open>What \<^verbatim>\<open>refresh_projects\<close> returns\<close>

lemma survivors_Nil: "survivors e [] = []"
  by (simp add: survivors_def)

lemma survivors_Cons:
  "survivors e (r # rs) =
     (if permissions_admin r
      then (case repo_topics e (owner_login r) (name r) of
              Inl f \<Rightarrow> survivors e rs
            | Inr ts \<Rightarrow> r\<lparr>topics := Some ts\<rparr> # survivors e rs)
      else survivors e rs)"
  by (simp add: survivors_def split: sum.splits)

lemma refresh_loop_survivors:
  assumes tok: "token e cfg = Inr tok"
    and ok: "\<forall>r\<in>set rs. permissions_admin r \<longrightarrow> repo_topics e (owner_login r) (name r) \<noteq> Inl Other_class"
  shows "fst (refresh_loop e cfg rs acc s) = Inr (acc @ survivors e rs)"
  using ok
proof (induction rs arbitrary: acc s)
  case Nil
  show ?case by (simp add: survivors_Nil)
next
  case (Cons r rs)
  from Cons.prems have rest: "\<forall>r\<in>set rs. permissions_admin r \<longrightarrow> repo_topics e (owner_login r) (name r) \<noteq> Inl Other_class"
    by simp
  note IH = Cons.IH[OF rest]
  show ?case
  proof (cases "permissions_admin r")
    case False
    have "refresh_loop e cfg (r # rs) acc s =
            refresh_loop e cfg rs acc (emit (Msg (skip_msg (full_name r))) s)"
      using False by simp
    moreover have "survivors e (r # rs) = survivors e rs"
      using False by (simp add: survivors_Cons)
    ultimately show ?thesis using IH by simp
  next
    case True
    from Cons.prems True have ne: "repo_topics e (owner_login r) (name r) \<noteq> Inl Other_class"
      by simp
    show ?thesis
    proof (cases "repo_topics e (owner_login r) (name r)")
      case (Inl f)
      with ne have f: "f = OSError_class" by (cases f) simp_all
      have "fetch_topics e cfg r s =
              (Inl OSError, emit (Get (instance_url cfg @ ''/api/v1/repos/'' @ owner_login r @ ''/'' @ name r @ ''/topics'')) s)"
        by (simp add: fetch_topics_cases tok Inl f)
      then have "refresh_loop e cfg (r # rs) acc s =
              refresh_loop e cfg rs acc
                (emit (Get (instance_url cfg @ ''/api/v1/repos/'' @ owner_login r @ ''/'' @ name r @ ''/topics'')) s)"
        using True by simp
      moreover have "survivors e (r # rs) = survivors e rs"
        using True Inl by (simp add: survivors_Cons)
      ultimately show ?thesis using IH by simp
    next
      case (Inr ts)
      have "fetch_topics e cfg r s =
              (Inr ts, emit (Get (instance_url cfg @ ''/api/v1/repos/'' @ owner_login r @ ''/'' @ name r @ ''/topics'')) s)"
        by (simp add: fetch_topics_cases tok Inr)
      then have "refresh_loop e cfg (r # rs) acc s =
              refresh_loop e cfg rs (acc @ [r\<lparr>topics := Some ts\<rparr>])
                (emit (Get (instance_url cfg @ ''/api/v1/repos/'' @ owner_login r @ ''/'' @ name r @ ''/topics'')) s)"
        using True by simp
      moreover have "survivors e (r # rs) = r\<lparr>topics := Some ts\<rparr> # survivors e rs"
        using True Inr by (simp add: survivors_Cons)
      ultimately show ?thesis using IH by simp
    qed
  qed
qed

text \<open>\<^verbatim>\<open>refresh_projects\<close>: the token is read first, then the enumeration, then the loop.\<close>

lemma refresh_projects_cases:
  "refresh_projects e cfg s =
     (case secret_store e (token_secret_name cfg) of
        None \<Rightarrow> (Inl (SecretMissing (token_secret_name cfg)), s)
      | Some tok \<Rightarrow>
          (case user_repos e of
             Inl f \<Rightarrow> (Inl (raise_io f), emit (Get (instance_url cfg @ ''/api/v1/user/repos?limit=100'')) s)
           | Inr rs \<Rightarrow>
               refresh_loop e cfg rs [] (emit (Get (instance_url cfg @ ''/api/v1/user/repos?limit=100'')) s)))"
  by (simp add: refresh_projects_def token_def read_secret_file_def
      paginated_github_request_repos_def split: option.splits sum.splits)

lemma refresh_projects_frame:
  assumes "refresh_projects e cfg s = (res, s')"
  shows "files s' = files s \<and> sighups s' = sighups s \<and> step_logs s' = step_logs s \<and>
         remote_hooks s' = remote_hooks s"
proof (cases "secret_store e (token_secret_name cfg)")
  case None
  with assms show ?thesis by (simp add: refresh_projects_cases)
next
  case (Some tok)
  show ?thesis
  proof (cases "user_repos e")
    case (Inl f)
    with assms Some show ?thesis by (auto simp: refresh_projects_cases emit_simps)
  next
    case (Inr rs)
    with assms Some have "refresh_loop e cfg rs []
        (emit (Get (instance_url cfg @ ''/api/v1/user/repos?limit=100'')) s) = (res, s')"
      by (simp add: refresh_projects_cases)
    from refresh_loop_frame[OF this] show ?thesis by (simp add: emit_simps)
  qed
qed

lemma refresh_projects_trace:
  assumes "refresh_projects e cfg s = (res, s')"
  shows "\<exists>evs. trace s' = trace s @ evs \<and> filter is_write evs = [] \<and> filter is_post evs = []"
proof (cases "secret_store e (token_secret_name cfg)")
  case None
  with assms show ?thesis by (simp add: refresh_projects_cases)
next
  case (Some tok)
  show ?thesis
  proof (cases "user_repos e")
    case (Inl f)
    with assms Some show ?thesis by (auto simp: refresh_projects_cases emit_simps)
  next
    case (Inr rs)
    with assms Some have "refresh_loop e cfg rs []
        (emit (Get (instance_url cfg @ ''/api/v1/user/repos?limit=100'')) s) = (res, s')"
      by (simp add: refresh_projects_cases)
    from refresh_loop_trace[OF this] obtain evs where
      "trace s' = trace s @ (Get (instance_url cfg @ ''/api/v1/user/repos?limit=100'') # evs)"
      "filter is_write evs = []" "filter is_post evs = []"
      by (auto simp: emit_simps)
    then have "trace s' = trace s @ (Get (instance_url cfg @ ''/api/v1/user/repos?limit=100'') # evs) \<and>
       filter is_write (Get (instance_url cfg @ ''/api/v1/user/repos?limit=100'') # evs) = [] \<and>
       filter is_post (Get (instance_url cfg @ ''/api/v1/user/repos?limit=100'') # evs) = []"
      by simp
    then show ?thesis by blast
  qed
qed

subsection \<open>The loop of \<^verbatim>\<open>reload_projects\<close>\<close>

text \<open>One round of the loop over the repositories, as a step to the rest of the loop.\<close>

lemma hooks_loop_step:
  assumes "hooks_loop e st (r # rest) s = (res, s')"
  shows "(\<exists>err. res = Inl err \<and> s' = s \<and> token e (step_config st) = Inl err) \<or>
         (\<exists>tok r1 s1. token e (step_config st) = Inr tok \<and>
            create_project_hook e (instance_url (step_config st)) (full_name r) tok
              (webhook_url st) (webhook_secret st) s = (r1, s1) \<and>
            ((\<exists>err. r1 = Inl err \<and> res = Inl err \<and> s' = s1) \<or>
             (r1 = Inr () \<and> hooks_loop e st rest s1 = (res, s'))))"
proof (cases "token e (step_config st)")
  case (Inl err)
  with assms show ?thesis by simp
next
  case (Inr tok)
  obtain r1 s1 where c: "create_project_hook e (instance_url (step_config st)) (full_name r) tok
              (webhook_url st) (webhook_secret st) s = (r1, s1)"
    by (cases "create_project_hook e (instance_url (step_config st)) (full_name r) tok
              (webhook_url st) (webhook_secret st) s")
  show ?thesis
  proof (cases r1)
    case (Inl err)
    with assms Inr c have "res = Inl err" "s' = s1" by simp_all
    with Inr c Inl show ?thesis by blast
  next
    case (Inr u)
    with assms \<open>token e (step_config st) = Inr tok\<close> c
    have "hooks_loop e st rest s1 = (res, s')" by simp
    with \<open>token e (step_config st) = Inr tok\<close> c Inr show ?thesis by auto
  qed
qed

lemma hooks_loop_frame:
  "hooks_loop e st repos s = (res, s') \<Longrightarrow>
     files s' = files s \<and> sighups s' = sighups s \<and> step_logs s' = step_logs s"
proof (induction repos arbitrary: s)
  case Nil
  then show ?case by simp
next
  case (Cons r rest)
  from hooks_loop_step[OF Cons.prems] show ?case
  proof (elim disjE exE conjE)
    fix err assume "s' = s"
    then show ?thesis by simp
  next
    fix tok r1 s1 err
    assume "create_project_hook e (instance_url (step_config st)) (full_name r) tok
              (webhook_url st) (webhook_secret st) s = (r1, s1)" and "s' = s1"
    from create_project_hook_frame[OF this(1)] this(2) show ?thesis by simp
  next
    fix tok r1 s1
    assume c: "create_project_hook e (instance_url (step_config st)) (full_name r) tok
              (webhook_url st) (webhook_secret st) s = (r1, s1)"
      and l: "hooks_loop e st rest s1 = (res, s')"
    from create_project_hook_frame[OF c] Cons.IH[OF l] show ?thesis by simp
  qed
qed

lemma hooks_loop_trace:
  "hooks_loop e st repos s = (res, s') \<Longrightarrow>
     \<exists>evs. trace s' = trace s @ evs \<and> filter is_write evs = [] \<and>
       (\<forall>u d. Post u d \<in> set evs \<longrightarrow>
          (\<exists>r\<in>set repos. u = instance_url (step_config st) @ ''/api/v1/repos/'' @ full_name r @ ''/hooks''))"
proof (induction repos arbitrary: s)
  case Nil
  then show ?case by simp
next
  case (Cons r rest)
  from hooks_loop_step[OF Cons.prems] show ?case
  proof (elim disjE exE conjE)
    fix err assume "s' = s"
    then show ?thesis by simp
  next
    fix tok r1 s1 err
    assume c: "create_project_hook e (instance_url (step_config st)) (full_name r) tok
              (webhook_url st) (webhook_secret st) s = (r1, s1)" and "s' = s1"
    from create_project_hook_trace[OF c] \<open>s' = s1\<close> obtain evs where
      "trace s' = trace s @ evs" "filter is_write evs = []"
      "\<forall>u d. Post u d \<in> set evs \<longrightarrow> u = instance_url (step_config st) @ ''/api/v1/repos/'' @ full_name r @ ''/hooks''"
      by blast
    then have "trace s' = trace s @ evs \<and> filter is_write evs = [] \<and>
       (\<forall>u d. Post u d \<in> set evs \<longrightarrow>
          (\<exists>x\<in>set (r # rest). u = instance_url (step_config st) @ ''/api/v1/repos/'' @ full_name x @ ''/hooks''))"
      by simp
    then show ?thesis by blast
  next
    fix tok r1 s1
    assume c: "create_project_hook e (instance_url (step_config st)) (full_name r) tok
              (webhook_url st) (webhook_secret st) s = (r1, s1)"
      and l: "hooks_loop e st rest s1 = (res, s')"
    from create_project_hook_trace[OF c] obtain evs1 where
      e1: "trace s1 = trace s @ evs1" "filter is_write evs1 = []"
      "\<forall>u d. Post u d \<in> set evs1 \<longrightarrow> u = instance_url (step_config st) @ ''/api/v1/repos/'' @ full_name r @ ''/hooks''"
      by blast
    from Cons.IH[OF l] obtain evs2 where
      e2: "trace s' = trace s1 @ evs2" "filter is_write evs2 = []"
      "\<forall>u d. Post u d \<in> set evs2 \<longrightarrow>
          (\<exists>x\<in>set rest. u = instance_url (step_config st) @ ''/api/v1/repos/'' @ full_name x @ ''/hooks'')"
      by blast
    have "trace s' = trace s @ (evs1 @ evs2)" using e1(1) e2(1) by simp
    moreover have "filter is_write (evs1 @ evs2) = []" using e1(2) e2(2) by simp
    moreover have "\<forall>u d. Post u d \<in> set (evs1 @ evs2) \<longrightarrow>
          (\<exists>x\<in>set (r # rest). u = instance_url (step_config st) @ ''/api/v1/repos/'' @ full_name x @ ''/hooks'')"
      using e1(3) e2(3) by auto
    ultimately show ?thesis by blast
  qed
qed

text \<open>With the token at hand and a remote that refuses nothing, the loop completes.\<close>

lemma create_project_hook_ok:
  assumes "list_hooks_fails e rn = None" and "create_hook_fails e rn = None"
  shows "\<exists>s'. create_project_hook e iu rn tok wu ws s = (Inr (), s')"
  using assms by (simp add: create_project_hook_cases http_request_post_def)

lemma hooks_loop_ok:
  assumes "token e (step_config st) = Inr tok"
    and "\<forall>r\<in>set repos. list_hooks_fails e (full_name r) = None \<and> create_hook_fails e (full_name r) = None"
  shows "\<exists>s'. hooks_loop e st repos s = (Inr (), s')"
  using assms(2)
proof (induction repos arbitrary: s)
  case Nil
  show ?case by simp
next
  case (Cons r rest)
  from Cons.prems have here: "list_hooks_fails e (full_name r) = None" "create_hook_fails e (full_name r) = None"
    and rest: "\<forall>r\<in>set rest. list_hooks_fails e (full_name r) = None \<and> create_hook_fails e (full_name r) = None"
    by simp_all
  from create_project_hook_ok[OF here] obtain s1 where
    c: "create_project_hook e (instance_url (step_config st)) (full_name r) tok
              (webhook_url st) (webhook_secret st) s = (Inr (), s1)"
    by blast
  from Cons.IH[OF rest] obtain s' where "hooks_loop e st rest s1 = (Inr (), s')" by blast
  with c assms(1) have "hooks_loop e st (r # rest) s = (Inr (), s')" by simp
  then show ?case by blast
qed

text \<open>The loop stops at the first repository whose hook reconciliation raises.\<close>

lemma hooks_loop_stops:
  assumes "hooks_loop e st pre s = (Inr (), s1)"
    and "token e (step_config st) = Inr tok"
    and "create_project_hook e (instance_url (step_config st)) (full_name r) tok
              (webhook_url st) (webhook_secret st) s1 = (Inl err, s2)"
  shows "hooks_loop e st (pre @ r # post) s = (Inl err, s2)"
  using assms(1)
proof (induction pre arbitrary: s)
  case Nil
  then have "s1 = s" by simp
  with assms(2,3) show ?case by simp
next
  case (Cons p pre)
  from hooks_loop_step[OF Cons.prems] assms(2) obtain sp where
    c: "create_project_hook e (instance_url (step_config st)) (full_name p) tok
              (webhook_url st) (webhook_secret st) s = (Inr (), sp)"
    and l: "hooks_loop e st pre sp = (Inr (), s1)"
    by auto
  from Cons.IH[OF l] c assms(2) show ?case by simp
qed

subsection \<open>\<^verbatim>\<open>reload_projects\<close>, stage by stage\<close>

text \<open>The three stages of \<^verbatim>\<open>reload_projects\<close> and where a run can end.\<close>

lemma reload_projects_stages:
  assumes "reload_projects e st s = (res, s')"
  shows "(\<exists>err. refresh_projects e (step_config st) s = (Inl err, s') \<and> res = Inl err) \<or>
         (\<exists>repos s1. refresh_projects e (step_config st) s = (Inr repos, s1) \<and>
            ((\<exists>err. hooks_loop e st repos s1 = (Inl err, s') \<and> res = Inl err) \<or>
             (\<exists>s2. hooks_loop e st repos s1 = (Inr (), s2) \<and>
                atomic_write_file e (step_project_cache_file st) repos s2 = (res, s'))))"
proof -
  obtain r1 s1 where a: "refresh_projects e (step_config st) s = (r1, s1)"
    by (cases "refresh_projects e (step_config st) s")
  show ?thesis
  proof (cases r1)
    case (Inl err)
    with assms a show ?thesis by (simp add: reload_projects_def)
  next
    case (Inr repos)
    obtain r2 s2 where b: "hooks_loop e st repos s1 = (r2, s2)"
      by (cases "hooks_loop e st repos s1")
    show ?thesis
    proof (cases r2)
      case (Inl err)
      with assms a Inr b show ?thesis by (auto simp: reload_projects_def)
    next
      case (Inr u)
      with assms a \<open>r1 = Inr repos\<close> b show ?thesis by (simp add: reload_projects_def)
    qed
  qed
qed

lemma atomic_write_file_cases:
  "atomic_write_file e path doc s = (res, s') \<Longrightarrow>
     trace s' = trace s @ [Write path] \<and> sighups s' = sighups s \<and> step_logs s' = step_logs s \<and>
     (if write_fails e path then res = Inl OSError \<and> files s' = files s
      else res = Inr () \<and> files s' = (files s)(path \<mapsto> doc))"
  by (auto simp: atomic_write_file_def emit_simps split: if_splits)

lemma reload_projects_frame:
  assumes "reload_projects e st s = (res, s')"
  shows "sighups s' = sighups s \<and> step_logs s' = step_logs s"
  using reload_projects_stages[OF assms]
proof (elim disjE exE conjE)
  fix err assume "refresh_projects e (step_config st) s = (Inl err, s')"
  from refresh_projects_frame[OF this] show ?thesis by simp
next
  fix repos s1 err
  assume "refresh_projects e (step_config st) s = (Inr repos, s1)"
    "hooks_loop e st repos s1 = (Inl err, s')"
  from refresh_projects_frame[OF this(1)] hooks_loop_frame[OF this(2)] show ?thesis by simp
next
  fix repos s1 s2
  assume "refresh_projects e (step_config st) s = (Inr repos, s1)"
    "hooks_loop e st repos s1 = (Inr (), s2)"
    "atomic_write_file e (step_project_cache_file st) repos s2 = (res, s')"
  from refresh_projects_frame[OF this(1)] hooks_loop_frame[OF this(2)]
    atomic_write_file_cases[OF this(3)] show ?thesis by simp
qed

lemma reload_projects_failure_files:
  assumes "reload_projects e st s = (Inl err, s')"
  shows "files s' = files s"
  using reload_projects_stages[OF assms]
proof (elim disjE exE conjE)
  fix err' assume "refresh_projects e (step_config st) s = (Inl err', s')"
  from refresh_projects_frame[OF this] show ?thesis by simp
next
  fix repos s1 err'
  assume "refresh_projects e (step_config st) s = (Inr repos, s1)"
    "hooks_loop e st repos s1 = (Inl err', s')"
  from refresh_projects_frame[OF this(1)] hooks_loop_frame[OF this(2)] show ?thesis by simp
next
  fix repos s1 s2
  assume "refresh_projects e (step_config st) s = (Inr repos, s1)"
    "hooks_loop e st repos s1 = (Inr (), s2)"
    "atomic_write_file e (step_project_cache_file st) repos s2 = (Inl err, s')"
  from refresh_projects_frame[OF this(1)] hooks_loop_frame[OF this(2)]
    atomic_write_file_cases[OF this(3)] show ?thesis by (simp split: if_splits)
qed

lemma reload_projects_success_files:
  assumes "reload_projects e st s = (Inr u, s')"
  shows "\<exists>repos s1. refresh_projects e (step_config st) s = (Inr repos, s1) \<and>
           files s' = (files s)(step_project_cache_file st \<mapsto> repos)"
  using reload_projects_stages[OF assms]
proof (elim disjE exE conjE)
  fix err assume "Inr u = Inl err"
  then show ?thesis by simp
next
  fix repos s1 err assume "Inr u = Inl err"
  then show ?thesis by simp
next
  fix repos s1 s2
  assume a: "refresh_projects e (step_config st) s = (Inr repos, s1)"
    "hooks_loop e st repos s1 = (Inr (), s2)"
    "atomic_write_file e (step_project_cache_file st) repos s2 = (Inr u, s')"
  from refresh_projects_frame[OF a(1)] hooks_loop_frame[OF a(2)]
    atomic_write_file_cases[OF a(3)]
  have "files s' = (files s)(step_project_cache_file st \<mapsto> repos)" by (simp split: if_splits)
  with a(1) show ?thesis by blast
qed

text \<open>The events of a run: a write is attempted at most once, as the last event.\<close>

lemma reload_projects_trace:
  assumes "reload_projects e st s = (res, s')"
  shows "\<exists>evs. trace s' = trace s @ evs \<and> filter is_write (butlast evs) = [] \<and>
           length (filter is_write evs) \<le> 1 \<and>
           (\<forall>p. Write p \<in> set evs \<longrightarrow>
              p = step_project_cache_file st \<and>
              (\<exists>repos s1 s2. refresh_projects e (step_config st) s = (Inr repos, s1) \<and>
                 hooks_loop e st repos s1 = (Inr (), s2)))"
  using reload_projects_stages[OF assms]
proof (elim disjE exE conjE)
  fix err assume "refresh_projects e (step_config st) s = (Inl err, s')"
  from refresh_projects_trace[OF this] obtain evs where
    e: "trace s' = trace s @ evs" "filter is_write evs = []" by blast
  from e(2) have "filter is_write (butlast evs) = []"
    by (metis filter_empty_conv in_set_butlastD)
  moreover from e(2) have "\<forall>p. Write p \<notin> set evs"
    by (metis filter_empty_conv is_write.simps(1))
  ultimately show ?thesis using e by auto
next
  fix repos s1 err
  assume a: "refresh_projects e (step_config st) s = (Inr repos, s1)"
    "hooks_loop e st repos s1 = (Inl err, s')"
  from refresh_projects_trace[OF a(1)] obtain evs1 where
    e1: "trace s1 = trace s @ evs1" "filter is_write evs1 = []" by blast
  from hooks_loop_trace[OF a(2)] obtain evs2 where
    e2: "trace s' = trace s1 @ evs2" "filter is_write evs2 = []" by blast
  have t: "trace s' = trace s @ (evs1 @ evs2)" using e1 e2 by simp
  have w: "filter is_write (evs1 @ evs2) = []" using e1 e2 by simp
  from w have "filter is_write (butlast (evs1 @ evs2)) = []"
    by (metis filter_empty_conv in_set_butlastD)
  moreover from w have "\<forall>p. Write p \<notin> set (evs1 @ evs2)"
    by (metis filter_empty_conv is_write.simps(1))
  ultimately show ?thesis using t w by (intro exI[of _ "evs1 @ evs2"]) simp
next
  fix repos s1 s2
  assume a: "refresh_projects e (step_config st) s = (Inr repos, s1)"
    "hooks_loop e st repos s1 = (Inr (), s2)"
    "atomic_write_file e (step_project_cache_file st) repos s2 = (res, s')"
  from refresh_projects_trace[OF a(1)] obtain evs1 where
    e1: "trace s1 = trace s @ evs1" "filter is_write evs1 = []" by blast
  from hooks_loop_trace[OF a(2)] obtain evs2 where
    e2: "trace s2 = trace s1 @ evs2" "filter is_write evs2 = []" by blast
  from atomic_write_file_cases[OF a(3)]
  have e3: "trace s' = trace s2 @ [Write (step_project_cache_file st)]" by simp
  let ?evs = "evs1 @ evs2 @ [Write (step_project_cache_file st)]"
  have t: "trace s' = trace s @ ?evs" using e1 e2 e3 by simp
  have b: "butlast ?evs = evs1 @ evs2" by (simp add: butlast_append)
  have w: "filter is_write (butlast ?evs) = []" unfolding b using e1 e2 by simp
  have l: "length (filter is_write ?evs) \<le> 1" using e1 e2 by simp
  have "\<forall>p. Write p \<notin> set (evs1 @ evs2)"
    using e1(2) e2(2) by (metis filter_append append_Nil filter_empty_conv is_write.simps(1))
  then have p: "\<forall>p. Write p \<in> set ?evs \<longrightarrow> p = step_project_cache_file st" by auto
  from t w l p a(1,2) show ?thesis by (intro exI[of _ ?evs]) blast
qed

lemmas world_defs =
  env0_def env_post_fails_def env_topics_fail_def env_no_token_def state0_def state_cached_def
  step0_def cfg0_def cfg_no_topic_def GiteaConfig_new_def secrets0_def secrets_no_token_def
  backend0_def backend_no_topic_def create_reload_builder_def listed_def tagged_def
  show_error_def

lemmas code_defs =
  run_def reload_projects_def refresh_projects_def token_def read_secret_file_def
  paginated_github_request_repos_def paginated_github_request_hooks_def
  http_request_topics_def http_request_post_def atomic_write_file_def
  create_project_hook_def fetch_topics_def emit_def skip_msg_def load_projects_def
  project_topics_def GiteaBackend_init_def new_events_def

section \<open>Claims\<close>

subsection \<open>A failed refresh and the snapshot\<close>

text \<open>
  C6. Whenever the refresh unit of work fails (the enumeration fails, a hook reconciliation
  raises, or the write cannot complete), the files are exactly as before the run, so what
  \<^verbatim>\<open>load_projects\<close> returns is unchanged. In every run a write is attempted at most once,
  as the very last event, to the cache file of the step, and only after the enumeration
  and the loop over the hooks have completed.
\<close>

theorem reload_failure_leaves_snapshot:
  assumes "reload_projects e st s = (res, s')"
  shows "(\<forall>err. res = Inl err \<longrightarrow>
            files s' = files s \<and> (\<forall>b. load_projects b s' = load_projects b s)) \<and>
         (\<exists>evs. trace s' = trace s @ evs \<and> filter is_write (butlast evs) = [] \<and>
            length (filter is_write evs) \<le> 1 \<and>
            (\<forall>p. Write p \<in> set evs \<longrightarrow>
               p = step_project_cache_file st \<and>
               (\<exists>repos s1 s2. refresh_projects e (step_config st) s = (Inr repos, s1) \<and>
                  hooks_loop e st repos s1 = (Inr (), s2))))"
proof (rule conjI)
  show "\<forall>err. res = Inl err \<longrightarrow>
          files s' = files s \<and> (\<forall>b. load_projects b s' = load_projects b s)"
  proof (intro allI impI)
    fix err assume "res = Inl err"
    with assms have "files s' = files s" by (simp add: reload_projects_failure_files)
    then show "files s' = files s \<and> (\<forall>b. load_projects b s' = load_projects b s)"
      by (simp add: load_projects_def)
  qed
next
  show "\<exists>evs. trace s' = trace s @ evs \<and> filter is_write (butlast evs) = [] \<and>
            length (filter is_write evs) \<le> 1 \<and>
            (\<forall>p. Write p \<in> set evs \<longrightarrow>
               p = step_project_cache_file st \<and>
               (\<exists>repos s1 s2. refresh_projects e (step_config st) s = (Inr repos, s1) \<and>
                  hooks_loop e st repos s1 = (Inr (), s2)))"
    by (rule reload_projects_trace[OF assms])
qed

theorem reload_failure_leaves_snapshot_witness:
  "fst (reload_projects (env_post_fails ''a/repo'' [listed ''a'' ''repo'' True]) step0
         (state_cached [tagged ''z'' ''old'' [''build-with-buildbot'']])) = Inl OtherError \<and>
   files (snd (reload_projects (env_post_fails ''a/repo'' [listed ''a'' ''repo'' True]) step0
         (state_cached [tagged ''z'' ''old'' [''build-with-buildbot'']])))
     = files (state_cached [tagged ''z'' ''old'' [''build-with-buildbot'']]) \<and>
   load_projects backend0
     (snd (reload_projects (env_post_fails ''a/repo'' [listed ''a'' ''repo'' True]) step0
         (state_cached [tagged ''z'' ''old'' [''build-with-buildbot'']])))
     = Inr [GiteaProject cfg0 (tagged ''z'' ''old'' [''build-with-buildbot''])]"
proof -
  let ?E = "env_post_fails ''a/repo'' [listed ''a'' ''repo'' True]"
  let ?S = "state_cached [tagged ''z'' ''old'' [''build-with-buildbot'']]"
  have r: "fst (reload_projects ?E step0 ?S) = Inl OtherError"
    by (simp add: world_defs code_defs)
  then have h: "reload_projects ?E step0 ?S = (Inl OtherError, snd (reload_projects ?E step0 ?S))"
    by (metis prod.collapse)
  have l: "load_projects backend0 ?S = Inr [GiteaProject cfg0 (tagged ''z'' ''old'' [''build-with-buildbot''])]"
    by (simp add: world_defs code_defs)
  from reload_failure_leaves_snapshot[OF h] r l show ?thesis by simp
qed

subsection \<open>The reload signal\<close>

text \<open>
  C5. The reload step sends \<^verbatim>\<open>SIGHUP\<close> to its own process exactly when \<^verbatim>\<open>reload_projects\<close>
  completes without an error, and then returns \<^verbatim>\<open>SUCCESS\<close> and adds no log. When
  \<^verbatim>\<open>reload_projects\<close> raises, no signal is sent, one log stream named \<^verbatim>\<open>log\<close> receives
  the text \<^verbatim>\<open>Failed to reload project list: \<close> followed by the traceback of the failure, and
  the step returns \<^verbatim>\<open>FAILURE\<close>.
\<close>

theorem run_signals_iff_success:
  assumes "run e getTraceback st s = (r, s')"
  shows "(sighups s' = sighups s + 1 \<longleftrightarrow> (\<exists>u. fst (reload_projects e st s) = Inr u)) \<and>
         ((\<exists>u. fst (reload_projects e st s) = Inr u) \<longrightarrow>
            r = SUCCESS \<and> step_logs s' = step_logs s) \<and>
         (\<forall>err. fst (reload_projects e st s) = Inl err \<longrightarrow>
            r = FAILURE \<and> sighups s' = sighups s \<and>
            step_logs s' = step_logs s @
              [(''log'', ''Failed to reload project list: '' @ getTraceback err)])"
proof -
  obtain res s1 where a: "reload_projects e st s = (res, s1)"
    by (cases "reload_projects e st s")
  note fr = reload_projects_frame[OF a]
  show ?thesis
  proof (cases res)
    case (Inl err)
    with assms a fr show ?thesis by (auto simp: run_def)
  next
    case (Inr u)
    with assms a fr show ?thesis by (auto simp: run_def)
  qed
qed

theorem run_signals_iff_success_witness:
  "run (env_no_token []) show_error step0 state0 =
     (FAILURE, state0\<lparr>step_logs :=
        [(''log'', ''Failed to reload project list: SecretMissing: gitea-token'')]\<rparr>) \<and>
   fst (run (env0 []) show_error step0 state0) = SUCCESS \<and>
   sighups (snd (run (env0 []) show_error step0 state0)) = 1 \<and>
   step_logs (snd (run (env0 []) show_error step0 state0)) = []"
proof -
  have f: "run (env_no_token []) show_error step0 state0 =
     (FAILURE, state0\<lparr>step_logs :=
        [(''log'', ''Failed to reload project list: SecretMissing: gitea-token'')]\<rparr>)"
    by (simp add: world_defs code_defs)
  have g: "fst (reload_projects (env0 []) step0 state0) = Inr ()"
    by (simp add: world_defs code_defs)
  have h: "run (env0 []) show_error step0 state0 =
      (fst (run (env0 []) show_error step0 state0), snd (run (env0 []) show_error step0 state0))"
    by simp
  have z: "sighups state0 = 0" "step_logs state0 = []" by (simp_all add: state0_def)
  from run_signals_iff_success[OF h] g z f show ?thesis by simp
qed

subsection \<open>The order of the snapshot\<close>

lemma refresh_loop_Inr_survivors:
  assumes tok: "token e cfg = Inr tok"
  shows "refresh_loop e cfg rs acc s = (Inr out, s') \<Longrightarrow> out = acc @ survivors e rs"
proof (induction rs arbitrary: acc s)
  case Nil
  then show ?case by (simp add: survivors_Nil)
next
  case (Cons r rs)
  show ?case
  proof (cases "permissions_admin r")
    case False
    with Cons.prems
    have "refresh_loop e cfg rs acc (emit (Msg (skip_msg (full_name r))) s) = (Inr out, s')"
      by simp
    from Cons.IH[OF this] False show ?thesis by (simp add: survivors_Cons)
  next
    case True
    show ?thesis
    proof (cases "repo_topics e (owner_login r) (name r)")
      case (Inl f)
      have ft: "fetch_topics e cfg r s =
              (Inl (raise_io f), emit (Get (instance_url cfg @ ''/api/v1/repos/'' @ owner_login r @ ''/'' @ name r @ ''/topics'')) s)"
        by (simp add: fetch_topics_cases tok Inl)
      show ?thesis
      proof (cases f)
        case OSError_class
        with Cons.prems True ft
        have "refresh_loop e cfg rs acc
                (emit (Get (instance_url cfg @ ''/api/v1/repos/'' @ owner_login r @ ''/'' @ name r @ ''/topics'')) s)
              = (Inr out, s')"
          by simp
        from Cons.IH[OF this] True Inl show ?thesis by (simp add: survivors_Cons)
      next
        case Other_class
        with Cons.prems True ft show ?thesis by simp
      qed
    next
      case (Inr ts)
      have "fetch_topics e cfg r s =
              (Inr ts, emit (Get (instance_url cfg @ ''/api/v1/repos/'' @ owner_login r @ ''/'' @ name r @ ''/topics'')) s)"
        by (simp add: fetch_topics_cases tok Inr)
      with Cons.prems True
      have "refresh_loop e cfg rs (acc @ [r\<lparr>topics := Some ts\<rparr>])
                (emit (Get (instance_url cfg @ ''/api/v1/repos/'' @ owner_login r @ ''/'' @ name r @ ''/topics'')) s)
            = (Inr out, s')"
        by simp
      from Cons.IH[OF this] True Inr show ?thesis by (simp add: survivors_Cons)
    qed
  qed
qed

lemma refresh_projects_Inr_survivors:
  assumes "refresh_projects e cfg s = (Inr out, s')" and "user_repos e = Inr rs"
  shows "out = survivors e rs"
proof (cases "secret_store e (token_secret_name cfg)")
  case None
  with assms show ?thesis by (simp add: refresh_projects_cases)
next
  case (Some tok)
  then have t: "token e cfg = Inr tok" by (simp add: token_def read_secret_file_def)
  from assms Some have "refresh_loop e cfg rs []
        (emit (Get (instance_url cfg @ ''/api/v1/user/repos?limit=100'')) s) = (Inr out, s')"
    by (simp add: refresh_projects_cases)
  from refresh_loop_Inr_survivors[OF t this] show ?thesis by simp
qed

text \<open>
  C1 (as the code has it). After a successful refresh the cache file holds the collected
  list in the order in which \<^verbatim>\<open>refresh_projects\<close> collected it, which is the order of the
  remote enumeration: \<^verbatim>\<open>reload_projects\<close> passes \<^verbatim>\<open>json.dumps(repos)\<close> to the write
  without sorting. No other file changes.
\<close>

theorem reload_writes_enumeration_order:
  assumes "reload_projects e st s = (Inr u, s')" and "user_repos e = Inr rs"
  shows "files s' = (files s)(step_project_cache_file st \<mapsto> survivors e rs)"
proof -
  from reload_projects_success_files[OF assms(1)] obtain repos s1 where
    r: "refresh_projects e (step_config st) s = (Inr repos, s1)"
    and f: "files s' = (files s)(step_project_cache_file st \<mapsto> repos)"
    by blast
  from refresh_projects_Inr_survivors[OF r assms(2)] f show ?thesis by simp
qed

theorem reload_writes_enumeration_order_witness:
  "files (snd (reload_projects
       (env0 [listed ''b'' ''repo'' True, listed ''a'' ''repo'' True, listed ''c'' ''repo'' True])
       step0 state0)) ''gitea-project-cache.json'' =
     Some [tagged ''b'' ''repo'' [''build-with-buildbot''],
           tagged ''a'' ''repo'' [''build-with-buildbot''],
           tagged ''c'' ''repo'' [''build-with-buildbot'']]"
proof -
  let ?E = "env0 [listed ''b'' ''repo'' True, listed ''a'' ''repo'' True, listed ''c'' ''repo'' True]"
  have "fst (reload_projects ?E step0 state0) = Inr ()"
    by (simp add: world_defs code_defs)
  then have h: "reload_projects ?E step0 state0 = (Inr (), snd (reload_projects ?E step0 state0))"
    by (metis prod.collapse)
  have u: "user_repos ?E =
      Inr [listed ''b'' ''repo'' True, listed ''a'' ''repo'' True, listed ''c'' ''repo'' True]"
    by (simp add: env0_def)
  from reload_writes_enumeration_order[OF h u] show ?thesis
    by (simp add: world_defs survivors_def map_filter_simps)
qed

text \<open>
  C1 as stated fails: for the enumeration \<^verbatim>\<open>b/repo\<close>, \<^verbatim>\<open>a/repo\<close>, \<^verbatim>\<open>c/repo\<close> the array written
  is in that order, not sorted by \<^verbatim>\<open>full_name\<close>.
\<close>

theorem snapshot_sorted_counterexample:
  "fst (reload_projects
       (env0 [listed ''b'' ''repo'' True, listed ''a'' ''repo'' True, listed ''c'' ''repo'' True])
       step0 state0) = Inr () \<and>
   map_option (map full_name)
     (files (snd (reload_projects
       (env0 [listed ''b'' ''repo'' True, listed ''a'' ''repo'' True, listed ''c'' ''repo'' True])
       step0 state0)) ''gitea-project-cache.json'') = Some [''b/repo'', ''a/repo'', ''c/repo''] \<and>
   map_option (map full_name)
     (files (snd (reload_projects
       (env0 [listed ''b'' ''repo'' True, listed ''a'' ''repo'' True, listed ''c'' ''repo'' True])
       step0 state0)) ''gitea-project-cache.json'') \<noteq> Some [''a/repo'', ''b/repo'', ''c/repo''] \<and>
   map full_name (sort_key full_name
       [listed ''b'' ''repo'' True, listed ''a'' ''repo'' True, listed ''c'' ''repo'' True]) =
     [''a/repo'', ''b/repo'', ''c/repo'']"
  by (simp add: world_defs code_defs)

subsection \<open>A hook reconciliation that raises\<close>

text \<open>
  C2 (as the code has it). \<^verbatim>\<open>reload_projects\<close> calls \<^verbatim>\<open>create_project_hook\<close> without a
  \<^verbatim>\<open>try\<close>: when it raises for a repository, the exception leaves \<^verbatim>\<open>reload_projects\<close> in
  the state that call produced. The hooks of the repositories before it have been
  reconciled, nothing is requested for the repositories after it, no write is attempted and
  the files are as before; the step returns \<^verbatim>\<open>FAILURE\<close> without a signal.
\<close>

theorem hook_failure_aborts_reload:
  assumes "refresh_projects e (step_config st) s = (Inr (pre @ r # post), s1)"
    and "hooks_loop e st pre s1 = (Inr (), s2)"
    and "token e (step_config st) = Inr tok"
    and "create_project_hook e (instance_url (step_config st)) (full_name r) tok
           (webhook_url st) (webhook_secret st) s2 = (Inl err, s3)"
  shows "reload_projects e st s = (Inl err, s3) \<and>
         files s3 = files s \<and>
         filter is_write (new_events s s3) = [] \<and>
         fst (run e getTraceback st s) = FAILURE \<and>
         sighups (snd (run e getTraceback st s)) = sighups s"
proof -
  from hooks_loop_stops[OF assms(2,3,4)]
  have l: "hooks_loop e st (pre @ r # post) s1 = (Inl err, s3)" .
  with assms(1) have r: "reload_projects e st s = (Inl err, s3)"
    by (simp add: reload_projects_def)
  from reload_projects_failure_files[OF r] have f: "files s3 = files s" .
  from refresh_projects_trace[OF assms(1)] obtain evs1 where
    e1: "trace s1 = trace s @ evs1" "filter is_write evs1 = []" by blast
  from hooks_loop_trace[OF l] obtain evs2 where
    e2: "trace s3 = trace s1 @ evs2" "filter is_write evs2 = []" by blast
  have "new_events s s3 = evs1 @ evs2"
    by (rule new_events_append) (simp add: e1 e2)
  with e1 e2 have w: "filter is_write (new_events s s3) = []" by simp
  from reload_projects_frame[OF r] have "sighups s3 = sighups s" by simp
  with r have "fst (run e getTraceback st s) = FAILURE"
    "sighups (snd (run e getTraceback st s)) = sighups s"
    by (simp_all add: run_def)
  with r f w show ?thesis by simp
qed

theorem hook_failure_aborts_reload_witness:
  "fst (reload_projects
         (env_post_fails ''a/repo'' [listed ''a'' ''repo'' True, listed ''b'' ''repo'' True])
         step0 state0) = Inl OtherError \<and>
   trace (snd (reload_projects
         (env_post_fails ''a/repo'' [listed ''a'' ''repo'' True, listed ''b'' ''repo'' True])
         step0 state0)) =
     [Get ''https://gitea.example.com/api/v1/user/repos?limit=100'',
      Get ''https://gitea.example.com/api/v1/repos/a/repo/topics'',
      Get ''https://gitea.example.com/api/v1/repos/b/repo/topics'',
      Get ''https://gitea.example.com/api/v1/repos/a/repo/hooks?limit=100'',
      Post ''https://gitea.example.com/api/v1/repos/a/repo/hooks''
        (desired_hook ''https://buildbot.example.com/'' ''s3cr3t'')]"
proof -
  let ?E = "env_post_fails ''a/repo'' [listed ''a'' ''repo'' True, listed ''b'' ''repo'' True]"
  let ?s1 = "snd (refresh_projects ?E (step_config step0) state0)"
  let ?s3 = "snd (create_project_hook ?E (instance_url (step_config step0))
                (full_name (tagged ''a'' ''repo'' [''build-with-buildbot''])) ''t0k3n''
                (webhook_url step0) (webhook_secret step0) ?s1)"
  have "fst (refresh_projects ?E (step_config step0) state0) =
          Inr ([] @ tagged ''a'' ''repo'' [''build-with-buildbot''] #
                 [tagged ''b'' ''repo'' [''build-with-buildbot'']])"
    by (simp add: world_defs code_defs)
  then have a: "refresh_projects ?E (step_config step0) state0 =
          (Inr ([] @ tagged ''a'' ''repo'' [''build-with-buildbot''] #
                 [tagged ''b'' ''repo'' [''build-with-buildbot'']]), ?s1)"
    by (metis prod.collapse)
  have b: "hooks_loop ?E step0 [] ?s1 = (Inr (), ?s1)" by simp
  have c: "token ?E (step_config step0) = Inr ''t0k3n''"
    by (simp add: world_defs code_defs)
  have "fst (create_project_hook ?E (instance_url (step_config step0))
                (full_name (tagged ''a'' ''repo'' [''build-with-buildbot''])) ''t0k3n''
                (webhook_url step0) (webhook_secret step0) ?s1) = Inl OtherError"
    by (simp add: world_defs code_defs)
  then have d: "create_project_hook ?E (instance_url (step_config step0))
                (full_name (tagged ''a'' ''repo'' [''build-with-buildbot''])) ''t0k3n''
                (webhook_url step0) (webhook_secret step0) ?s1 = (Inl OtherError, ?s3)"
    by (metis prod.collapse)
  have t: "trace ?s3 =
     [Get ''https://gitea.example.com/api/v1/user/repos?limit=100'',
      Get ''https://gitea.example.com/api/v1/repos/a/repo/topics'',
      Get ''https://gitea.example.com/api/v1/repos/b/repo/topics'',
      Get ''https://gitea.example.com/api/v1/repos/a/repo/hooks?limit=100'',
      Post ''https://gitea.example.com/api/v1/repos/a/repo/hooks''
        (desired_hook ''https://buildbot.example.com/'' ''s3cr3t'')]"
    by (simp add: world_defs code_defs desired_hook_def)
  from hook_failure_aborts_reload[OF a b c d, of show_error] t show ?thesis by simp
qed

text \<open>
  C2 as stated fails: with two repositories and a remote that refuses the hook creation
  for the first, \<^verbatim>\<open>reload_projects\<close> raises, the hooks of the second are never listed and
  the cache file is not written.
\<close>

theorem hook_failure_contained_counterexample:
  "fst (reload_projects
         (env_post_fails ''a/repo'' [listed ''a'' ''repo'' True, listed ''b'' ''repo'' True])
         step0 state0) = Inl OtherError \<and>
   Get ''https://gitea.example.com/api/v1/repos/b/repo/hooks?limit=100'' \<notin>
     set (trace (snd (reload_projects
         (env_post_fails ''a/repo'' [listed ''a'' ''repo'' True, listed ''b'' ''repo'' True])
         step0 state0))) \<and>
   Write ''gitea-project-cache.json'' \<notin>
     set (trace (snd (reload_projects
         (env_post_fails ''a/repo'' [listed ''a'' ''repo'' True, listed ''b'' ''repo'' True])
         step0 state0))) \<and>
   files (snd (reload_projects
         (env_post_fails ''a/repo'' [listed ''a'' ''repo'' True, listed ''b'' ''repo'' True])
         step0 state0)) ''gitea-project-cache.json'' = None"
  by (simp add: world_defs code_defs)

subsection \<open>Loading the catalog\<close>

lemma filter_projects_None: "filter_projects None ps = Inr []"
  by (induction ps) simp_all

lemma filter_projects_Some:
  "\<forall>p\<in>set ps. topics (data p) \<noteq> None \<Longrightarrow>
     filter_projects (Some t) ps = Inr (filter (\<lambda>p. has_topic t (data p)) ps)"
proof (induction ps)
  case Nil
  show ?case by simp
next
  case (Cons p ps)
  from Cons.prems obtain ts where ts: "topics (data p) = Some ts" by auto
  from Cons.prems have "\<forall>p\<in>set ps. topics (data p) \<noteq> None" by simp
  from Cons.IH[OF this] ts show ?case
    by (simp add: project_topics_def has_topic_def)
qed

lemma filter_projects_KeyError:
  "\<exists>p\<in>set ps. topics (data p) = None \<Longrightarrow>
     filter_projects (Some t) ps = Inl (KeyError ''topics'')"
proof (induction ps)
  case Nil
  then show ?case by simp
next
  case (Cons p ps)
  show ?case
  proof (cases "topics (data p)")
    case None
    then show ?thesis by (simp add: project_topics_def)
  next
    case (Some ts)
    with Cons.prems have "\<exists>p\<in>set ps. topics (data p) = None" by auto
    from Cons.IH[OF this] Some show ?thesis by (simp add: project_topics_def)
  qed
qed

text \<open>
  What \<^verbatim>\<open>load_projects\<close> returns, case by case: the empty list when the cache file does
  not exist; the empty list when it exists and no topic is configured, the filter's
  predicate being false for every project; with a topic configured and \<^verbatim>\<open>topics\<close> in every
  cached record, the records sorted by \<^verbatim>\<open>full_name\<close>, restricted to those whose topics
  contain the topic; \<^verbatim>\<open>KeyError\<close> when a topic is configured and a cached record has no
  \<^verbatim>\<open>topics\<close>.
\<close>

lemma load_projects_cases:
  "(files s (project_cache_file (backend_config b)) = None \<longrightarrow> load_projects b s = Inr []) \<and>
   (\<forall>doc. files s (project_cache_file (backend_config b)) = Some doc \<longrightarrow>
      (topic (backend_config b) = None \<longrightarrow> load_projects b s = Inr []) \<and>
      (\<forall>t. topic (backend_config b) = Some t \<longrightarrow>
         ((\<forall>r\<in>set doc. topics r \<noteq> None) \<longrightarrow>
            load_projects b s =
              Inr (map (GiteaProject (backend_config b))
                     (filter (has_topic t) (sort_key full_name doc))) \<and>
            sorted (map full_name (filter (has_topic t) (sort_key full_name doc)))) \<and>
         ((\<exists>r\<in>set doc. topics r = None) \<longrightarrow> load_projects b s = Inl (KeyError ''topics''))))"
proof (intro conjI allI impI)
  assume "files s (project_cache_file (backend_config b)) = None"
  then show "load_projects b s = Inr []" by (simp add: load_projects_def)
next
  fix doc
  assume "files s (project_cache_file (backend_config b)) = Some doc"
    and "topic (backend_config b) = None"
  then show "load_projects b s = Inr []"
    by (simp add: load_projects_def filter_projects_None)
next
  fix doc t
  assume f: "files s (project_cache_file (backend_config b)) = Some doc"
    and t: "topic (backend_config b) = Some t"
    and k: "\<forall>r\<in>set doc. topics r \<noteq> None"
  let ?ps = "map (GiteaProject (backend_config b)) (sort_key full_name doc)"
  from k have "\<forall>p\<in>set ?ps. topics (data p) \<noteq> None" by simp
  from filter_projects_Some[OF this, of t]
  have "filter_projects (Some t) ?ps = Inr (filter (\<lambda>p. has_topic t (data p)) ?ps)" .
  also have "filter (\<lambda>p. has_topic t (data p)) ?ps =
      map (GiteaProject (backend_config b)) (filter (has_topic t) (sort_key full_name doc))"
    by (simp add: filter_map comp_def)
  finally show "load_projects b s =
              Inr (map (GiteaProject (backend_config b))
                     (filter (has_topic t) (sort_key full_name doc)))"
    using f t by (simp add: load_projects_def)
next
  fix doc t
  show "sorted (map full_name (filter (has_topic t) (sort_key full_name doc)))"
    by (rule sorted_filter) (rule sorted_sort_key)
next
  fix doc t
  assume f: "files s (project_cache_file (backend_config b)) = Some doc"
    and t: "topic (backend_config b) = Some t"
    and k: "\<exists>r\<in>set doc. topics r = None"
  let ?ps = "map (GiteaProject (backend_config b)) (sort_key full_name doc)"
  from k have "\<exists>p\<in>set ?ps. topics (data p) = None" by simp
  from filter_projects_KeyError[OF this, of t] f t
  show "load_projects b s = Inl (KeyError ''topics'')" by (simp add: load_projects_def)
qed


text \<open>
  Three cached records, two of them tagged with the configured topic: the two are
  returned, sorted.
\<close>

lemma load_projects_three_records:
  "load_projects backend0
     (state_cached [tagged ''c'' ''repo'' [''build-with-buildbot''],
                    tagged ''b'' ''repo'' [''other''],
                    tagged ''a'' ''repo'' [''nix'', ''build-with-buildbot'']]) =
     Inr [GiteaProject cfg0 (tagged ''a'' ''repo'' [''nix'', ''build-with-buildbot'']),
          GiteaProject cfg0 (tagged ''c'' ''repo'' [''build-with-buildbot''])] \<and>
   load_projects backend0 state0 = Inr []"
proof -
  let ?doc = "[tagged ''c'' ''repo'' [''build-with-buildbot''],
               tagged ''b'' ''repo'' [''other''],
               tagged ''a'' ''repo'' [''nix'', ''build-with-buildbot'']]"
  have f: "files (state_cached ?doc) (project_cache_file (backend_config backend0)) = Some ?doc"
    by (simp add: world_defs)
  have t: "topic (backend_config backend0) = Some ''build-with-buildbot''"
    by (simp add: world_defs)
  have k: "\<forall>r\<in>set ?doc. topics r \<noteq> None"
    by (simp add: world_defs)
  have n: "files state0 (project_cache_file (backend_config backend0)) = None"
    by (simp add: world_defs)
  have c: "backend_config backend0 = cfg0" by (simp add: backend0_def)
  have v: "filter (has_topic ''build-with-buildbot'') (sort_key full_name ?doc) =
      [tagged ''a'' ''repo'' [''nix'', ''build-with-buildbot''],
       tagged ''c'' ''repo'' [''build-with-buildbot'']]"
    by (simp add: world_defs has_topic_def)
  from load_projects_cases[of "state_cached ?doc" backend0] f t k
  have "load_projects backend0 (state_cached ?doc) =
      Inr (map (GiteaProject (backend_config backend0))
             (filter (has_topic ''build-with-buildbot'') (sort_key full_name ?doc)))"
    by blast
  moreover from load_projects_cases[of state0 backend0] n
  have "load_projects backend0 state0 = Inr []" by blast
  ultimately show ?thesis by (simp only: v c list.map simp_thms)
qed

text \<open>
  C3. With no required topic configured, \<^verbatim>\<open>load_projects\<close> is to return all cached
  records, sorted by \<^verbatim>\<open>full_name\<close>. The code returns none of them: \<^verbatim>\<open>topic\<close> is declared
  \<^verbatim>\<open>str | None\<close>, and the filter's predicate
  \<^verbatim>\<open>self.config.topic is not None and self.config.topic in project.topics\<close> is false for
  every project when the topic is \<^verbatim>\<open>None\<close>. A cache file of two records loads as the empty
  list. So does the state after a reload step of the same configuration, which succeeded,
  issued a hook creation for both repositories and wrote both records.
\<close>

theorem load_without_topic_selects_nothing:
  "topic (backend_config backend_no_topic) = None \<and>
   load_projects backend_no_topic
     (state_cached [tagged ''b'' ''repo'' [''build-with-buildbot''],
                    tagged ''a'' ''repo'' [''other'']]) = Inr [] \<and>
   fst (run (env0 [listed ''b'' ''repo'' True, listed ''a'' ''repo'' True]) show_error
          (create_reload_builder backend_no_topic ''https://buildbot.example.com/'') state0)
     = SUCCESS \<and>
   files (snd (run (env0 [listed ''b'' ''repo'' True, listed ''a'' ''repo'' True]) show_error
          (create_reload_builder backend_no_topic ''https://buildbot.example.com/'') state0))
       ''gitea-project-cache.json'' =
     Some [tagged ''b'' ''repo'' [''build-with-buildbot''],
           tagged ''a'' ''repo'' [''build-with-buildbot'']] \<and>
   length (filter is_post (trace (snd (run
          (env0 [listed ''b'' ''repo'' True, listed ''a'' ''repo'' True]) show_error
          (create_reload_builder backend_no_topic ''https://buildbot.example.com/'') state0))))
     = 2 \<and>
   load_projects backend_no_topic
     (snd (run (env0 [listed ''b'' ''repo'' True, listed ''a'' ''repo'' True]) show_error
          (create_reload_builder backend_no_topic ''https://buildbot.example.com/'') state0))
     = Inr []"
  by (simp add: world_defs code_defs Let_def)

subsection \<open>Hook reconciliation\<close>

text \<open>The events, the result and the hooks at the remote after one call, case by case.\<close>

lemma create_project_hook_result:
  assumes "create_project_hook e iu rn tok wu ws s = (r, s')"
  shows "(\<exists>f. list_hooks_fails e rn = Some f \<and> r = Inl (raise_io f) \<and>
            new_events s s' = [Get (iu @ ''/api/v1/repos/'' @ rn @ ''/hooks?limit=100'')] \<and>
            remote_hooks s' = remote_hooks s) \<or>
         (list_hooks_fails e rn = None \<and>
            (\<exists>h\<in>set (remote_hooks s rn). url (config h) = wu @ ''change_hook/gitea'') \<and>
            r = Inr () \<and>
            new_events s s' = [Get (iu @ ''/api/v1/repos/'' @ rn @ ''/hooks?limit=100''),
                               Msg (''hook for '' @ rn @ '' already exists'')] \<and>
            remote_hooks s' = remote_hooks s) \<or>
         (list_hooks_fails e rn = None \<and>
            \<not> (\<exists>h\<in>set (remote_hooks s rn). url (config h) = wu @ ''change_hook/gitea'') \<and>
            new_events s s' = [Get (iu @ ''/api/v1/repos/'' @ rn @ ''/hooks?limit=100''),
                               Post (iu @ ''/api/v1/repos/'' @ rn @ ''/hooks'') (desired_hook wu ws)] \<and>
            ((\<exists>f. create_hook_fails e rn = Some f \<and> r = Inl (raise_io f) \<and>
                  remote_hooks s' = remote_hooks s) \<or>
             (create_hook_fails e rn = None \<and> r = Inr () \<and>
                remote_hooks s' = (remote_hooks s)(rn := remote_hooks s rn @ [desired_hook wu ws]))))"
proof (cases "list_hooks_fails e rn")
  case (Some f)
  with assms show ?thesis
    by (auto simp: create_project_hook_cases new_events_def emit_simps)
next
  case None
  show ?thesis
  proof (cases "\<exists>h\<in>set (remote_hooks s rn). url (config h) = wu @ ''change_hook/gitea''")
    case True
    with assms None show ?thesis
      by (auto simp: create_project_hook_cases new_events_def emit_simps)
  next
    case False
    show ?thesis
    proof (cases "create_hook_fails e rn")
      case None
      with assms \<open>list_hooks_fails e rn = None\<close> False show ?thesis
        by (auto simp: create_project_hook_cases http_request_post_def new_events_def emit_simps)
    next
      case (Some f)
      with assms \<open>list_hooks_fails e rn = None\<close> False show ?thesis
        by (auto simp: create_project_hook_cases http_request_post_def new_events_def emit_simps)
    qed
  qed
qed

lemma create_project_hook_extends:
  assumes "create_project_hook e iu rn tok wu ws s = (r, s')"
  shows "trace s' = trace s @ new_events s s'"
proof -
  from create_project_hook_trace[OF assms] obtain evs where e: "trace s' = trace s @ evs"
    by blast
  then have "new_events s s' = evs" by (rule new_events_append)
  with e show ?thesis by simp
qed

lemma url_desired_hook: "url (config (desired_hook wu ws)) = wu @ ''change_hook/gitea''"
  by (simp add: desired_hook_def)

text \<open>
  C4. If the hooks listed for the repository contain one whose configured URL equals the
  desired callback URL, \<^verbatim>\<open>create_project_hook\<close> returns without a creation request and
  leaves the hooks at the remote as they are. Hence, when a first call has returned, a
  second call for the same repository and callback URL returns without a creation request:
  the two calls together issue at most one.
\<close>

theorem create_project_hook_idempotent:
  "(list_hooks_fails e rn = None \<and>
      (\<exists>h\<in>set (remote_hooks s rn). url (config h) = wu @ ''change_hook/gitea'') \<longrightarrow>
      fst (create_project_hook e iu rn tok wu ws s) = Inr () \<and>
      filter is_post (new_events s (snd (create_project_hook e iu rn tok wu ws s))) = [] \<and>
      remote_hooks (snd (create_project_hook e iu rn tok wu ws s)) = remote_hooks s) \<and>
   (\<forall>s1 r2 s2 tok2 ws2.
      create_project_hook e iu rn tok wu ws s = (Inr (), s1) \<longrightarrow>
      create_project_hook e iu rn tok2 wu ws2 s1 = (r2, s2) \<longrightarrow>
        r2 = Inr () \<and> filter is_post (new_events s1 s2) = [] \<and>
        remote_hooks s2 = remote_hooks s1 \<and>
        length (filter is_post (new_events s s2)) \<le> 1)"
proof (intro conjI allI impI)
  assume a: "list_hooks_fails e rn = None \<and>
      (\<exists>h\<in>set (remote_hooks s rn). url (config h) = wu @ ''change_hook/gitea'')"
  obtain r s' where c: "create_project_hook e iu rn tok wu ws s = (r, s')"
    by (cases "create_project_hook e iu rn tok wu ws s")
  from create_project_hook_result[OF c] a
  have "r = Inr () \<and> filter is_post (new_events s s') = [] \<and> remote_hooks s' = remote_hooks s"
    by auto
  with c show "fst (create_project_hook e iu rn tok wu ws s) = Inr ()"
    "filter is_post (new_events s (snd (create_project_hook e iu rn tok wu ws s))) = []"
    "remote_hooks (snd (create_project_hook e iu rn tok wu ws s)) = remote_hooks s"
    by simp_all
next
  fix s1 r2 s2 tok2 ws2
  assume c1: "create_project_hook e iu rn tok wu ws s = (Inr (), s1)"
    and c2: "create_project_hook e iu rn tok2 wu ws2 s1 = (r2, s2)"
  from create_project_hook_result[OF c1]
  have ok: "list_hooks_fails e rn = None" by auto
  from create_project_hook_result[OF c1]
  have ex: "\<exists>h\<in>set (remote_hooks s1 rn). url (config h) = wu @ ''change_hook/gitea''"
    by (auto simp: url_desired_hook)
  from create_project_hook_result[OF c1]
  have p1: "length (filter is_post (new_events s s1)) \<le> 1" by auto
  from create_project_hook_result[OF c2] ok ex
  have second: "r2 = Inr () \<and> filter is_post (new_events s1 s2) = [] \<and>
      remote_hooks s2 = remote_hooks s1"
    by auto
  have "trace s2 = trace s @ (new_events s s1 @ new_events s1 s2)"
    using create_project_hook_extends[OF c1] create_project_hook_extends[OF c2] by simp
  then have "new_events s s2 = new_events s s1 @ new_events s1 s2"
    by (rule new_events_append)
  with p1 second have "length (filter is_post (new_events s s2)) \<le> 1" by simp
  with second show "r2 = Inr ()" "filter is_post (new_events s1 s2) = []"
    "remote_hooks s2 = remote_hooks s1" "length (filter is_post (new_events s s2)) \<le> 1"
    by simp_all
qed


theorem create_project_hook_idempotent_witness:
  "fst (create_project_hook (env0 []) ''https://gitea.example.com'' ''a/repo'' ''t0k3n''
          ''https://buildbot.example.com/'' ''s3cr3t'' state0) = Inr () \<and>
   fst (create_project_hook (env0 []) ''https://gitea.example.com'' ''a/repo'' ''t0k3n''
          ''https://buildbot.example.com/'' ''s3cr3t''
          (snd (create_project_hook (env0 []) ''https://gitea.example.com'' ''a/repo'' ''t0k3n''
                 ''https://buildbot.example.com/'' ''s3cr3t'' state0))) = Inr () \<and>
   trace (snd (create_project_hook (env0 []) ''https://gitea.example.com'' ''a/repo'' ''t0k3n''
          ''https://buildbot.example.com/'' ''s3cr3t''
          (snd (create_project_hook (env0 []) ''https://gitea.example.com'' ''a/repo'' ''t0k3n''
                 ''https://buildbot.example.com/'' ''s3cr3t'' state0)))) =
     [Get ''https://gitea.example.com/api/v1/repos/a/repo/hooks?limit=100'',
      Post ''https://gitea.example.com/api/v1/repos/a/repo/hooks''
        (desired_hook ''https://buildbot.example.com/'' ''s3cr3t''),
      Get ''https://gitea.example.com/api/v1/repos/a/repo/hooks?limit=100'',
      Msg ''hook for a/repo already exists'']"
proof -
  let ?call = "create_project_hook (env0 []) ''https://gitea.example.com'' ''a/repo'' ''t0k3n''
                 ''https://buildbot.example.com/'' ''s3cr3t''"
  have f1: "fst (?call state0) = Inr ()"
    by (simp add: world_defs code_defs Let_def)
  then have c1: "?call state0 = (Inr (), snd (?call state0))"
    by (metis prod.collapse)
  have c2: "?call (snd (?call state0)) =
      (fst (?call (snd (?call state0))), snd (?call (snd (?call state0))))"
    by simp
  have t1: "trace (snd (?call state0)) =
     [Get ''https://gitea.example.com/api/v1/repos/a/repo/hooks?limit=100'',
      Post ''https://gitea.example.com/api/v1/repos/a/repo/hooks''
        (desired_hook ''https://buildbot.example.com/'' ''s3cr3t'')]"
    by (simp add: world_defs code_defs desired_hook_def Let_def)
  from create_project_hook_idempotent[of "env0 []" "''a/repo''" state0
      "''https://buildbot.example.com/''" "''https://gitea.example.com''" "''t0k3n''" "''s3cr3t''"]
    c1 c2
  have second: "fst (?call (snd (?call state0))) = Inr () \<and>
      filter is_post (new_events (snd (?call state0)) (snd (?call (snd (?call state0))))) = []"
    by blast
  have t2: "trace (snd (?call (snd (?call state0)))) =
      trace (snd (?call state0)) @
        [Get ''https://gitea.example.com/api/v1/repos/a/repo/hooks?limit=100'',
         Msg ''hook for a/repo already exists'']"
    by (simp add: world_defs code_defs desired_hook_def Let_def)
  from f1 second t1 t2 show ?thesis by simp
qed

text \<open>
  C10. The URL that \<^verbatim>\<open>create_project_hook\<close> compares the listed hooks with and the URL in
  the payload of the creation request are the same string, \<^verbatim>\<open>webhook_url\<close> followed by
  \<^verbatim>\<open>change_hook/gitea\<close> with nothing in between: a creation request is issued exactly when
  the listing succeeded and no listed hook has that URL, it is the only one, and its
  payload carries that URL.
\<close>

theorem hook_url_is_concatenation:
  assumes "create_project_hook e iu rn tok wu ws s = (r, s')"
  shows "(\<forall>u d. Post u d \<in> set (new_events s s') \<longrightarrow> url (config d) = wu @ ''change_hook/gitea'') \<and>
         ((\<exists>u d. Post u d \<in> set (new_events s s')) \<longleftrightarrow>
            (list_hooks_fails e rn = None \<and>
             \<not> (\<exists>h\<in>set (remote_hooks s rn). url (config h) = wu @ ''change_hook/gitea''))) \<and>
         length (filter is_post (new_events s s')) \<le> 1"
  using create_project_hook_result[OF assms]
  by (elim disjE exE conjE) (auto simp: url_desired_hook)

theorem hook_url_is_concatenation_witness:
  "new_events state0
     (snd (create_project_hook (env0 []) ''https://gitea.example.com'' ''a/repo'' ''t0k3n''
             ''https://buildbot.example.com'' ''s3cr3t'' state0)) =
     [Get ''https://gitea.example.com/api/v1/repos/a/repo/hooks?limit=100'',
      Post ''https://gitea.example.com/api/v1/repos/a/repo/hooks''
        (desired_hook ''https://buildbot.example.com'' ''s3cr3t'')] \<and>
   url (config (desired_hook ''https://buildbot.example.com'' ''s3cr3t'')) =
     ''https://buildbot.example.comchange_hook/gitea''"
proof -
  let ?call = "create_project_hook (env0 []) ''https://gitea.example.com'' ''a/repo'' ''t0k3n''
             ''https://buildbot.example.com'' ''s3cr3t'' state0"
  have c: "?call = (fst ?call, snd ?call)" by simp
  have n: "new_events state0 (snd ?call) =
     [Get ''https://gitea.example.com/api/v1/repos/a/repo/hooks?limit=100'',
      Post ''https://gitea.example.com/api/v1/repos/a/repo/hooks''
        (desired_hook ''https://buildbot.example.com'' ''s3cr3t'')]"
    by (simp add: world_defs code_defs desired_hook_def Let_def)
  from hook_url_is_concatenation[OF c] n
  have "url (config (desired_hook ''https://buildbot.example.com'' ''s3cr3t'')) =
      ''https://buildbot.example.com'' @ ''change_hook/gitea''"
    by simp
  with n show ?thesis by simp
qed

subsection \<open>A topic request that raises\<close>

text \<open>
  C7 (as the code has it). The \<^verbatim>\<open>try\<close> around the topic request catches \<^verbatim>\<open>OSError\<close> only.
  When the token can be read, the enumeration succeeds and no topic request of an
  admin-eligible repository raises anything else, \<^verbatim>\<open>refresh_projects\<close> returns every
  admin-eligible repository whose topic request succeeded, with its topics, in the order
  of the enumeration: a repository whose topic request raised \<^verbatim>\<open>OSError\<close> is skipped and
  nothing else is. If moreover no hook request of a survivor fails and the write can
  complete, the snapshot holds the survivors and the step returns \<^verbatim>\<open>SUCCESS\<close>.
\<close>

theorem topic_oserror_skips_one:
  assumes "secret_store e (token_secret_name (step_config st)) = Some tok"
    and "user_repos e = Inr rs"
    and "\<forall>r\<in>set rs. permissions_admin r \<longrightarrow>
           repo_topics e (owner_login r) (name r) \<noteq> Inl Other_class"
  shows "fst (refresh_projects e (step_config st) s) = Inr (survivors e rs) \<and>
         ((\<forall>r\<in>set (survivors e rs).
              list_hooks_fails e (full_name r) = None \<and> create_hook_fails e (full_name r) = None) \<and>
          \<not> write_fails e (step_project_cache_file st) \<longrightarrow>
            fst (run e getTraceback st s) = SUCCESS \<and>
            files (snd (run e getTraceback st s)) (step_project_cache_file st) =
              Some (survivors e rs))"
proof -
  have t: "token e (step_config st) = Inr tok"
    using assms(1) by (simp add: token_def read_secret_file_def)
  let ?s0 = "emit (Get (instance_url (step_config st) @ ''/api/v1/user/repos?limit=100'')) s"
  have rp: "refresh_projects e (step_config st) s = refresh_loop e (step_config st) rs [] ?s0"
    using assms(1,2) by (simp add: refresh_projects_cases)
  from refresh_loop_survivors[OF t assms(3), of "[]" ?s0]
  have r: "fst (refresh_projects e (step_config st) s) = Inr (survivors e rs)"
    by (simp add: rp)
  have "fst (run e getTraceback st s) = SUCCESS \<and>
        files (snd (run e getTraceback st s)) (step_project_cache_file st) = Some (survivors e rs)"
    if h: "\<forall>r\<in>set (survivors e rs).
              list_hooks_fails e (full_name r) = None \<and> create_hook_fails e (full_name r) = None"
      and w: "\<not> write_fails e (step_project_cache_file st)"
  proof -
    obtain s1 where a: "refresh_projects e (step_config st) s = (Inr (survivors e rs), s1)"
      using r by (metis prod.collapse)
    from hooks_loop_ok[OF t h] obtain s2 where
      b: "hooks_loop e st (survivors e rs) s1 = (Inr (), s2)" by blast
    from a b w have "reload_projects e st s =
        (Inr (), emit (Write (step_project_cache_file st))
                   (s2\<lparr>files := (files s2)(step_project_cache_file st \<mapsto> survivors e rs)\<rparr>))"
      by (simp add: reload_projects_def atomic_write_file_def)
    then show ?thesis by (simp add: run_def emit_simps)
  qed
  with r show ?thesis by blast
qed


theorem topic_oserror_skips_one_witness:
  "fst (run (env_topics_fail OSError_class ''org'' ''three'' five_repos) show_error step0 state0)
     = SUCCESS \<and>
   files (snd (run (env_topics_fail OSError_class ''org'' ''three'' five_repos) show_error
                 step0 state0)) ''gitea-project-cache.json'' =
     Some [tagged ''org'' ''one'' [''build-with-buildbot''],
           tagged ''org'' ''two'' [''build-with-buildbot''],
           tagged ''org'' ''four'' [''build-with-buildbot''],
           tagged ''org'' ''five'' [''build-with-buildbot'']]"
proof -
  let ?E = "env_topics_fail OSError_class ''org'' ''three'' five_repos"
  have a: "secret_store ?E (token_secret_name (step_config step0)) = Some ''t0k3n''"
    by (simp add: world_defs)
  have b: "user_repos ?E = Inr five_repos"
    by (simp add: world_defs)
  have c: "\<forall>r\<in>set five_repos. permissions_admin r \<longrightarrow>
           repo_topics ?E (owner_login r) (name r) \<noteq> Inl Other_class"
    by (simp add: world_defs five_repos_def)
  have v: "survivors ?E five_repos =
      [tagged ''org'' ''one'' [''build-with-buildbot''],
       tagged ''org'' ''two'' [''build-with-buildbot''],
       tagged ''org'' ''four'' [''build-with-buildbot''],
       tagged ''org'' ''five'' [''build-with-buildbot'']]"
    by (simp add: world_defs five_repos_def survivors_Cons survivors_Nil)
  have h: "\<forall>r\<in>set (survivors ?E five_repos).
      list_hooks_fails ?E (full_name r) = None \<and> create_hook_fails ?E (full_name r) = None"
    by (simp add: world_defs)
  have w: "\<not> write_fails ?E (step_project_cache_file step0)"
    by (simp add: world_defs)
  have p: "step_project_cache_file step0 = ''gitea-project-cache.json''"
    by (simp add: world_defs)
  from topic_oserror_skips_one[OF a b c, of state0 show_error] h w
  have "fst (run ?E show_error step0 state0) = SUCCESS \<and>
        files (snd (run ?E show_error step0 state0)) (step_project_cache_file step0) =
          Some (survivors ?E five_repos)"
    by blast
  then show ?thesis by (simp only: v p)
qed

text \<open>
  C7 as stated fails: when the topic request of one of five eligible repositories raises an
  exception that is not an \<^verbatim>\<open>OSError\<close>, \<^verbatim>\<open>refresh_projects\<close> raises it, no snapshot is
  written and the step returns \<^verbatim>\<open>FAILURE\<close>.
\<close>

theorem topic_failure_skipped_counterexample:
  "fst (refresh_projects (env_topics_fail Other_class ''org'' ''three'' five_repos) cfg0 state0)
     = Inl OtherError \<and>
   fst (run (env_topics_fail Other_class ''org'' ''three'' five_repos) show_error step0 state0)
     = FAILURE \<and>
   files (snd (run (env_topics_fail Other_class ''org'' ''three'' five_repos) show_error
                 step0 state0)) ''gitea-project-cache.json'' = None"
  by (simp add: world_defs code_defs five_repos_def)

subsection \<open>Repositories without admin permission\<close>

lemma hooks_url_inject:
  "iu @ ''/api/v1/repos/'' @ a @ ''/hooks'' = iu @ ''/api/v1/repos/'' @ b @ ''/hooks'' \<longleftrightarrow> a = b"
  by simp

lemma no_post_in: "filter is_post evs = [] \<Longrightarrow> Post u d \<notin> set evs"
  by (metis filter_empty_conv is_post.simps(1))

text \<open>
  C8. A record of the enumeration without admin permission is not in what
  \<^verbatim>\<open>refresh_projects\<close> returns, and the diagnostic naming it has been emitted; every
  returned record has admin permission and carries topics. Every hook-creation request of
  a reload is addressed to the repository of an admin record of the enumeration, so a
  record without admin permission (whose full name no admin record shares) never triggers
  one.
\<close>

theorem non_admin_excluded:
  assumes "user_repos e = Inr rs"
  shows "(\<forall>out s'. refresh_projects e cfg s = (Inr out, s') \<longrightarrow>
            (\<forall>r\<in>set out. permissions_admin r \<and> topics r \<noteq> None) \<and>
            (\<forall>r0\<in>set rs. \<not> permissions_admin r0 \<longrightarrow>
               r0 \<notin> set out \<and> Msg (skip_msg (full_name r0)) \<in> set (trace s'))) \<and>
         (\<forall>res s'. reload_projects e st s = (res, s') \<longrightarrow>
            (\<forall>u d. Post u d \<in> set (new_events s s') \<longrightarrow>
               (\<exists>r1\<in>set rs. permissions_admin r1 \<and>
                  u = instance_url (step_config st) @ ''/api/v1/repos/'' @ full_name r1 @ ''/hooks'')) \<and>
            (\<forall>r0\<in>set rs. \<not> permissions_admin r0 \<longrightarrow>
               (\<forall>r1\<in>set rs. permissions_admin r1 \<longrightarrow> full_name r1 \<noteq> full_name r0) \<longrightarrow>
               (\<forall>d. Post (instance_url (step_config st) @ ''/api/v1/repos/'' @ full_name r0 @ ''/hooks'') d
                      \<notin> set (new_events s s'))))"
proof -
  have out: "(\<forall>r\<in>set out. permissions_admin r \<and> topics r \<noteq> None \<and>
                (\<exists>r0\<in>set rs. permissions_admin r0 \<and> r = r0\<lparr>topics := topics r\<rparr>)) \<and>
             (\<forall>r0\<in>set rs. \<not> permissions_admin r0 \<longrightarrow> Msg (skip_msg (full_name r0)) \<in> set (trace s'))"
    if "refresh_projects e c s0 = (Inr out, s')" for c s0 out s'
  proof (cases "secret_store e (token_secret_name c)")
    case None
    with that show ?thesis by (simp add: refresh_projects_cases)
  next
    case (Some tok)
    with that assms have "refresh_loop e c rs []
        (emit (Get (instance_url c @ ''/api/v1/user/repos?limit=100'')) s0) = (Inr out, s')"
      by (simp add: refresh_projects_cases)
    from refresh_loop_output[OF this] show ?thesis by simp
  qed
  have first: "\<forall>out s'. refresh_projects e cfg s = (Inr out, s') \<longrightarrow>
            (\<forall>r\<in>set out. permissions_admin r \<and> topics r \<noteq> None) \<and>
            (\<forall>r0\<in>set rs. \<not> permissions_admin r0 \<longrightarrow>
               r0 \<notin> set out \<and> Msg (skip_msg (full_name r0)) \<in> set (trace s'))"
  proof (intro allI impI)
    fix out s' assume "refresh_projects e cfg s = (Inr out, s')"
    from out[OF this] show "(\<forall>r\<in>set out. permissions_admin r \<and> topics r \<noteq> None) \<and>
            (\<forall>r0\<in>set rs. \<not> permissions_admin r0 \<longrightarrow>
               r0 \<notin> set out \<and> Msg (skip_msg (full_name r0)) \<in> set (trace s'))"
      by blast
  qed
  have posts: "\<exists>r1\<in>set rs. permissions_admin r1 \<and>
                  u = instance_url (step_config st) @ ''/api/v1/repos/'' @ full_name r1 @ ''/hooks''"
    if run: "reload_projects e st s = (res, s')" and p: "Post u d \<in> set (new_events s s')"
    for res s' u d
    using reload_projects_stages[OF run]
  proof (elim disjE exE conjE)
    fix err assume "refresh_projects e (step_config st) s = (Inl err, s')"
    from refresh_projects_trace[OF this] obtain evs where
      "trace s' = trace s @ evs" "filter is_post evs = []" by blast
    then have "new_events s s' = evs" "Post u d \<notin> set evs"
      by (simp_all add: new_events_append no_post_in)
    with p show ?thesis by simp
  next
    fix repos s1 err
    assume a: "refresh_projects e (step_config st) s = (Inr repos, s1)"
      and b: "hooks_loop e st repos s1 = (Inl err, s')"
    from refresh_projects_trace[OF a] obtain evs1 where
      e1: "trace s1 = trace s @ evs1" "filter is_post evs1 = []" by blast
    from hooks_loop_trace[OF b] obtain evs2 where
      e2: "trace s' = trace s1 @ evs2"
      "\<forall>u d. Post u d \<in> set evs2 \<longrightarrow>
          (\<exists>r\<in>set repos. u = instance_url (step_config st) @ ''/api/v1/repos/'' @ full_name r @ ''/hooks'')"
      by blast
    have "new_events s s' = evs1 @ evs2"
      by (rule new_events_append) (simp add: e1 e2)
    with p no_post_in[OF e1(2)] have "Post u d \<in> set evs2" by auto
    with e2(2) obtain r where r: "r \<in> set repos"
      "u = instance_url (step_config st) @ ''/api/v1/repos/'' @ full_name r @ ''/hooks''"
      by blast
    from out[OF a] r(1) obtain r1 where r1: "r1 \<in> set rs" "permissions_admin r1"
      "r = r1\<lparr>topics := topics r\<rparr>" by blast
    from r1(3) have "full_name r = full_name (r1\<lparr>topics := topics r\<rparr>)" by simp
    then have "full_name r = full_name r1" by simp
    with r(2) r1(1,2) show ?thesis by auto
  next
    fix repos s1 s2
    assume a: "refresh_projects e (step_config st) s = (Inr repos, s1)"
      and b: "hooks_loop e st repos s1 = (Inr (), s2)"
      and c: "atomic_write_file e (step_project_cache_file st) repos s2 = (res, s')"
    from refresh_projects_trace[OF a] obtain evs1 where
      e1: "trace s1 = trace s @ evs1" "filter is_post evs1 = []" by blast
    from hooks_loop_trace[OF b] obtain evs2 where
      e2: "trace s2 = trace s1 @ evs2"
      "\<forall>u d. Post u d \<in> set evs2 \<longrightarrow>
          (\<exists>r\<in>set repos. u = instance_url (step_config st) @ ''/api/v1/repos/'' @ full_name r @ ''/hooks'')"
      by blast
    from atomic_write_file_cases[OF c]
    have e3: "trace s' = trace s2 @ [Write (step_project_cache_file st)]" by simp
    have "new_events s s' = evs1 @ evs2 @ [Write (step_project_cache_file st)]"
      by (rule new_events_append) (simp add: e1 e2 e3)
    with p no_post_in[OF e1(2)] have "Post u d \<in> set evs2" by auto
    with e2(2) obtain r where r: "r \<in> set repos"
      "u = instance_url (step_config st) @ ''/api/v1/repos/'' @ full_name r @ ''/hooks''"
      by blast
    from out[OF a] r(1) obtain r1 where r1: "r1 \<in> set rs" "permissions_admin r1"
      "r = r1\<lparr>topics := topics r\<rparr>" by blast
    from r1(3) have "full_name r = full_name (r1\<lparr>topics := topics r\<rparr>)" by simp
    then have "full_name r = full_name r1" by simp
    with r(2) r1(1,2) show ?thesis by auto
  qed
  have second: "\<forall>res s'. reload_projects e st s = (res, s') \<longrightarrow>
            (\<forall>u d. Post u d \<in> set (new_events s s') \<longrightarrow>
               (\<exists>r1\<in>set rs. permissions_admin r1 \<and>
                  u = instance_url (step_config st) @ ''/api/v1/repos/'' @ full_name r1 @ ''/hooks'')) \<and>
            (\<forall>r0\<in>set rs. \<not> permissions_admin r0 \<longrightarrow>
               (\<forall>r1\<in>set rs. permissions_admin r1 \<longrightarrow> full_name r1 \<noteq> full_name r0) \<longrightarrow>
               (\<forall>d. Post (instance_url (step_config st) @ ''/api/v1/repos/'' @ full_name r0 @ ''/hooks'') d
                      \<notin> set (new_events s s')))"
  proof (intro allI impI conjI ballI)
    fix res s' u d
    assume "reload_projects e st s = (res, s')" "Post u d \<in> set (new_events s s')"
    then show "\<exists>r1\<in>set rs. permissions_admin r1 \<and>
                  u = instance_url (step_config st) @ ''/api/v1/repos/'' @ full_name r1 @ ''/hooks''"
      by (rule posts)
  next
    fix res s' r0 d
    assume run: "reload_projects e st s = (res, s')"
      and uniq: "\<forall>r1\<in>set rs. permissions_admin r1 \<longrightarrow> full_name r1 \<noteq> full_name r0"
    show "Post (instance_url (step_config st) @ ''/api/v1/repos/'' @ full_name r0 @ ''/hooks'') d
            \<notin> set (new_events s s')"
    proof
      assume "Post (instance_url (step_config st) @ ''/api/v1/repos/'' @ full_name r0 @ ''/hooks'') d
            \<in> set (new_events s s')"
      from posts[OF run this] obtain r1 where "r1 \<in> set rs" "permissions_admin r1"
        "instance_url (step_config st) @ ''/api/v1/repos/'' @ full_name r0 @ ''/hooks'' =
         instance_url (step_config st) @ ''/api/v1/repos/'' @ full_name r1 @ ''/hooks''"
        by blast
      with uniq show False by (simp only: hooks_url_inject) auto
    qed
  qed
  from first second show ?thesis by (rule conjI)
qed


theorem non_admin_excluded_witness:
  "fst (refresh_projects (env0 [listed ''a'' ''repo'' True, listed ''b'' ''repo'' False]) cfg0 state0)
     = Inr [tagged ''a'' ''repo'' [''build-with-buildbot'']] \<and>
   Msg ''skipping b/repo because we do not have admin privileges, needed for hook management''
     \<in> set (trace (snd (refresh_projects
            (env0 [listed ''a'' ''repo'' True, listed ''b'' ''repo'' False]) cfg0 state0))) \<and>
   filter is_post (new_events state0
      (snd (reload_projects (env0 [listed ''a'' ''repo'' True, listed ''b'' ''repo'' False])
              step0 state0))) =
     [Post ''https://gitea.example.com/api/v1/repos/a/repo/hooks''
        (desired_hook ''https://buildbot.example.com/'' ''s3cr3t'')]"
proof -
  let ?rs = "[listed ''a'' ''repo'' True, listed ''b'' ''repo'' False]"
  have u: "user_repos (env0 ?rs) = Inr ?rs" by (simp add: env0_def)
  have f: "fst (refresh_projects (env0 ?rs) cfg0 state0) =
      Inr [tagged ''a'' ''repo'' [''build-with-buildbot'']]"
    by (simp add: world_defs code_defs)
  then have r: "refresh_projects (env0 ?rs) cfg0 state0 =
      (Inr [tagged ''a'' ''repo'' [''build-with-buildbot'']],
       snd (refresh_projects (env0 ?rs) cfg0 state0))"
    by (metis prod.collapse)
  have b: "listed ''b'' ''repo'' False \<in> set ?rs" "\<not> permissions_admin (listed ''b'' ''repo'' False)"
    by (simp_all add: listed_def)
  from non_admin_excluded[OF u, of cfg0 state0 step0] r b
  have "Msg (skip_msg (full_name (listed ''b'' ''repo'' False)))
      \<in> set (trace (snd (refresh_projects (env0 ?rs) cfg0 state0)))"
    by blast
  then have m: "Msg ''skipping b/repo because we do not have admin privileges, needed for hook management''
      \<in> set (trace (snd (refresh_projects (env0 ?rs) cfg0 state0)))"
    by (simp add: skip_msg_def listed_def)
  have p: "filter is_post (new_events state0 (snd (reload_projects (env0 ?rs) step0 state0))) =
     [Post ''https://gitea.example.com/api/v1/repos/a/repo/hooks''
        (desired_hook ''https://buildbot.example.com/'' ''s3cr3t'')]"
    by (simp add: world_defs code_defs desired_hook_def Let_def)
  from f m p show ?thesis by simp
qed

subsection \<open>Which secret a refresh can miss\<close>

text \<open>The only secret a refresh reads is the API token.\<close>

lemma token_cases:
  "token e cfg = Inl err \<Longrightarrow>
     err = SecretMissing (token_secret_name cfg) \<and> secret_store e (token_secret_name cfg) = None"
  by (auto simp: token_def read_secret_file_def split: option.splits)

lemma raise_io_not_secret: "raise_io f \<noteq> SecretMissing n"
  by (cases f) simp_all

lemma fetch_topics_secret:
  "fetch_topics e cfg r s = (Inl (SecretMissing n), s') \<Longrightarrow>
     n = token_secret_name cfg \<and> secret_store e n = None"
proof -
  assume a: "fetch_topics e cfg r s = (Inl (SecretMissing n), s')"
  show ?thesis
  proof (cases "token e cfg")
    case (Inl err)
    with a have "err = SecretMissing n" by (simp add: fetch_topics_cases)
    with token_cases[OF Inl] show ?thesis by simp
  next
    case (Inr tok)
    with a show ?thesis
      by (cases "repo_topics e (owner_login r) (name r)")
        (simp_all add: fetch_topics_cases raise_io_not_secret)
  qed
qed

lemma refresh_loop_secret:
  "refresh_loop e cfg rs acc s = (Inl (SecretMissing n), s') \<Longrightarrow>
     n = token_secret_name cfg \<and> secret_store e n = None"
proof (induction rs arbitrary: acc s)
  case Nil
  then show ?case by simp
next
  case (Cons r rs)
  show ?case
  proof (cases "permissions_admin r")
    case False
    with Cons.prems
    have "refresh_loop e cfg rs acc (emit (Msg (skip_msg (full_name r))) s)
            = (Inl (SecretMissing n), s')"
      by simp
    from Cons.IH[OF this] show ?thesis .
  next
    case True
    obtain fr s1 where f: "fetch_topics e cfg r s = (fr, s1)" by (cases "fetch_topics e cfg r s")
    show ?thesis
    proof (cases fr)
      case (Inl err)
      show ?thesis
      proof (cases "is_OSError err")
        case True
        with Cons.prems \<open>permissions_admin r\<close> f Inl
        have "refresh_loop e cfg rs acc s1 = (Inl (SecretMissing n), s')" by simp
        from Cons.IH[OF this] show ?thesis .
      next
        case False
        with Cons.prems \<open>permissions_admin r\<close> f Inl
        have "err = SecretMissing n" by simp
        with f Inl show ?thesis by (simp add: fetch_topics_secret)
      qed
    next
      case (Inr ts)
      with Cons.prems True f
      have "refresh_loop e cfg rs (acc @ [r\<lparr>topics := Some ts\<rparr>]) s1 = (Inl (SecretMissing n), s')"
        by simp
      from Cons.IH[OF this] show ?thesis .
    qed
  qed
qed

lemma refresh_projects_secret:
  assumes "refresh_projects e cfg s = (Inl (SecretMissing n), s')"
  shows "n = token_secret_name cfg \<and> secret_store e n = None"
proof (cases "secret_store e (token_secret_name cfg)")
  case None
  with assms show ?thesis by (simp add: refresh_projects_cases)
next
  case (Some tok)
  show ?thesis
  proof (cases "user_repos e")
    case (Inl f)
    with assms Some show ?thesis by (simp add: refresh_projects_cases raise_io_not_secret)
  next
    case (Inr rs)
    with assms Some have "refresh_loop e cfg rs []
        (emit (Get (instance_url cfg @ ''/api/v1/user/repos?limit=100'')) s)
          = (Inl (SecretMissing n), s')"
      by (simp add: refresh_projects_cases)
    then show ?thesis by (rule refresh_loop_secret)
  qed
qed

lemma create_project_hook_secret:
  "create_project_hook e iu rn tok wu ws s \<noteq> (Inl (SecretMissing n), s')"
proof
  assume "create_project_hook e iu rn tok wu ws s = (Inl (SecretMissing n), s')"
  from create_project_hook_result[OF this] have "\<exists>f. Inl (SecretMissing n) = Inl (raise_io f)"
    by (elim disjE exE conjE) blast+
  then obtain f where "raise_io f = SecretMissing n" by auto
  then show False by (simp add: raise_io_not_secret)
qed

lemma hooks_loop_secret:
  "hooks_loop e st repos s = (Inl (SecretMissing n), s') \<Longrightarrow>
     n = token_secret_name (step_config st) \<and> secret_store e n = None"
proof (induction repos arbitrary: s)
  case Nil
  then show ?case by simp
next
  case (Cons r rest)
  from hooks_loop_step[OF Cons.prems] show ?case
  proof (elim disjE exE conjE)
    fix err assume "Inl (SecretMissing n) = Inl err" "token e (step_config st) = Inl err"
    then have "token e (step_config st) = Inl (SecretMissing n)" by simp
    from token_cases[OF this] show ?thesis by simp
  next
    fix tok r1 s1 err
    assume "create_project_hook e (instance_url (step_config st)) (full_name r) tok
              (webhook_url st) (webhook_secret st) s = (r1, s1)"
      "r1 = Inl err" "Inl (SecretMissing n) = Inl err"
    then have "create_project_hook e (instance_url (step_config st)) (full_name r) tok
              (webhook_url st) (webhook_secret st) s = (Inl (SecretMissing n), s1)"
      by simp
    then show ?thesis by (simp add: create_project_hook_secret)
  next
    fix tok r1 s1
    assume "hooks_loop e st rest s1 = (Inl (SecretMissing n), s')"
    then show ?thesis by (rule Cons.IH)
  qed
qed

lemma reload_projects_secret:
  assumes "reload_projects e st s = (Inl (SecretMissing n), s')"
  shows "n = token_secret_name (step_config st) \<and> secret_store e n = None"
  using reload_projects_stages[OF assms]
proof (elim disjE exE conjE)
  fix err
  assume "refresh_projects e (step_config st) s = (Inl err, s')" "Inl (SecretMissing n) = Inl err"
  then have "refresh_projects e (step_config st) s = (Inl (SecretMissing n), s')" by simp
  then show ?thesis by (rule refresh_projects_secret)
next
  fix repos s1 err
  assume "hooks_loop e st repos s1 = (Inl err, s')" "Inl (SecretMissing n) = Inl err"
  then have "hooks_loop e st repos s1 = (Inl (SecretMissing n), s')" by simp
  then show ?thesis by (rule hooks_loop_secret)
next
  fix repos s1 s2
  assume "atomic_write_file e (step_project_cache_file st) repos s2 = (Inl (SecretMissing n), s')"
  from atomic_write_file_cases[OF this] show ?thesis by (simp split: if_splits)
qed

text \<open>
  C9 (as the code has it). \<^verbatim>\<open>GiteaBackend.__init__\<close> reads the webhook signing secret and
  nothing else: without it the construction fails, with it the construction succeeds
  whether or not the API token exists. The API token is read by \<^verbatim>\<open>config.token()\<close> during
  the refresh: without it \<^verbatim>\<open>reload_projects\<close> fails at once, before any request, and a
  missing secret that fails a refresh is always the API token, never the webhook secret,
  which the step holds as a string.
\<close>

theorem secrets_read_when:
  "(secret_store e (webhook_secret_name cfg) = None \<longrightarrow>
      GiteaBackend_init e cfg = Inl (SecretMissing (webhook_secret_name cfg))) \<and>
   (\<forall>ws. secret_store e (webhook_secret_name cfg) = Some ws \<longrightarrow>
      GiteaBackend_init e cfg = Inr \<lparr>backend_config = cfg, backend_webhook_secret = ws\<rparr>) \<and>
   (\<forall>b base e' s. GiteaBackend_init e cfg = Inr b \<longrightarrow>
      (secret_store e' (token_secret_name cfg) = None \<longrightarrow>
         reload_projects e' (create_reload_builder b base) s =
           (Inl (SecretMissing (token_secret_name cfg)), s)) \<and>
      (\<forall>n. fst (reload_projects e' (create_reload_builder b base) s) = Inl (SecretMissing n) \<longrightarrow>
         n = token_secret_name cfg \<and> secret_store e' n = None))"
proof (intro conjI allI impI)
  assume "secret_store e (webhook_secret_name cfg) = None"
  then show "GiteaBackend_init e cfg = Inl (SecretMissing (webhook_secret_name cfg))"
    by (simp add: GiteaBackend_init_def read_secret_file_def)
next
  fix ws assume "secret_store e (webhook_secret_name cfg) = Some ws"
  then show "GiteaBackend_init e cfg = Inr \<lparr>backend_config = cfg, backend_webhook_secret = ws\<rparr>"
    by (simp add: GiteaBackend_init_def read_secret_file_def)
next
  fix b base and e' :: env and s
  assume i: "GiteaBackend_init e cfg = Inr b" and "secret_store e' (token_secret_name cfg) = None"
  moreover from i have "backend_config b = cfg"
    by (auto simp: GiteaBackend_init_def split: sum.splits)
  ultimately show "reload_projects e' (create_reload_builder b base) s =
           (Inl (SecretMissing (token_secret_name cfg)), s)"
    by (simp add: reload_projects_def refresh_projects_cases create_reload_builder_def)
next
  fix b base and e' :: env and s n
  assume i: "GiteaBackend_init e cfg = Inr b"
    and f: "fst (reload_projects e' (create_reload_builder b base) s) = Inl (SecretMissing n)"
  from i have c: "step_config (create_reload_builder b base) = cfg"
    by (auto simp: GiteaBackend_init_def create_reload_builder_def split: sum.splits)
  from f have "reload_projects e' (create_reload_builder b base) s =
      (Inl (SecretMissing n), snd (reload_projects e' (create_reload_builder b base) s))"
    by (metis prod.collapse)
  from reload_projects_secret[OF this]
  have "n = token_secret_name (step_config (create_reload_builder b base))"
    and m: "secret_store e' n = None" by blast+
  then show "n = token_secret_name cfg" by (simp only: c)
  from m show "secret_store e' n = None" .
qed

theorem secrets_read_when_witness:
  "GiteaBackend_init (env_no_token []) cfg0 = Inr backend0 \<and>
   reload_projects (env_no_token []) (create_reload_builder backend0 ''https://buildbot.example.com/'')
       state0 = (Inl (SecretMissing ''gitea-token''), state0) \<and>
   GiteaBackend_init (env_no_token [])
       (cfg0\<lparr>webhook_secret_name := ''absent''\<rparr>) = Inl (SecretMissing ''absent'')"
proof -
  note thm0 = secrets_read_when[of "env_no_token []" cfg0]
  note thm1 = secrets_read_when[of "env_no_token []" "cfg0\<lparr>webhook_secret_name := ''absent''\<rparr>"]
  have w: "secret_store (env_no_token []) (webhook_secret_name cfg0) = Some ''s3cr3t''"
    by (simp add: world_defs)
  have b: "\<lparr>backend_config = cfg0, backend_webhook_secret = ''s3cr3t''\<rparr> = backend0"
    by (simp add: backend0_def)
  have t: "secret_store (env_no_token []) (token_secret_name cfg0) = None"
    by (simp add: world_defs)
  have n: "token_secret_name cfg0 = ''gitea-token''"
    by (simp add: world_defs)
  have a: "secret_store (env_no_token [])
             (webhook_secret_name (cfg0\<lparr>webhook_secret_name := ''absent''\<rparr>)) = None"
    by (simp add: world_defs)
  have a': "webhook_secret_name (cfg0\<lparr>webhook_secret_name := ''absent''\<rparr>) = ''absent''"
    by simp
  from thm0[THEN conjunct2, THEN conjunct1, rule_format, OF w]
  have i: "GiteaBackend_init (env_no_token []) cfg0 = Inr backend0"
    by (simp only: b)
  from thm0[THEN conjunct2, THEN conjunct2, rule_format, OF i, THEN conjunct1, rule_format, OF t]
  have r: "reload_projects (env_no_token [])
       (create_reload_builder backend0 ''https://buildbot.example.com/'') state0 =
     (Inl (SecretMissing ''gitea-token''), state0)"
    by (simp only: n)
  from thm1[THEN conjunct1, rule_format, OF a]
  have m: "GiteaBackend_init (env_no_token []) (cfg0\<lparr>webhook_secret_name := ''absent''\<rparr>) =
      Inl (SecretMissing ''absent'')"
    by (simp only: a')
  from i r m show ?thesis by (intro conjI)
qed

text \<open>
  C9 as stated fails for the API token: with the webhook secret present and the token
  absent, the backend is constructed, and the refresh run on it fails for the missing
  secret.
\<close>

theorem missing_token_counterexample:
  "GiteaBackend_init (env_no_token []) cfg0 = Inr backend0 \<and>
   secret_store (env_no_token []) (token_secret_name cfg0) = None \<and>
   fst (run (env_no_token []) show_error step0 state0) = FAILURE \<and>
   fst (reload_projects (env_no_token []) step0 state0) = Inl (SecretMissing ''gitea-token'')"
  by (simp add: world_defs code_defs)

end
